theory Spec2Isabelle
  imports Complex_Main
begin

section \<open>The branch-and-bound search driver (mip/HighsSearch.cpp)\<close>

text \<open>
  Conventions of the model.
  \<^item> A \<^verbatim>\<open>double\<close> is the \<open>real\<close> it stands for; NaN and the infinities are
    outside the model. The result of an arithmetic operation on doubles, and of the
    conversion of an integer to a double, is the exact result rounded to a double:
    the rounding is the parameter \<open>roundDouble\<close>. \<^verbatim>\<open>std::floor\<close>, \<^verbatim>\<open>std::ceil\<close>,
    \<^verbatim>\<open>std::min\<close>, \<^verbatim>\<open>std::max\<close>, comparisons and powers of \<open>0.5\<close> are exact. The
    constant \<^verbatim>\<open>kHighsInf\<close> (lp_data/HConst.h, not among the sources) is a
    parameter.
  \<^item> \<^verbatim>\<open>HighsInt\<close> and \<^verbatim>\<open>int64_t\<close> are \<open>int\<close>: the counters stay far from the
    machine bounds.
  \<^item> A \<^verbatim>\<open>std::shared_ptr\<close> is an \<open>option\<close> (\<open>None\<close> is the null pointer); a
    \<^verbatim>\<open>std::vector\<close> is a list whose last element is the vector's last one.
  \<^item> A failed \<^verbatim>\<open>assert\<close>, and taking the last frame of an empty node stack, end
    the run: the function returns \<open>None\<close>.
  \<^item> The collaborators whose code is not among the sources (propagation in the local
    domain, the LP relaxation, the pseudocost scores, the symmetry detector) are
    parameters: a record of functions that say what the collaborator answers in a
    given state of the search. Every call is logged in \<open>calls\<close>, so an answer may
    depend on the history.
\<close>

subsection \<open>Data\<close>

datatype HighsBoundType = kLower | kUpper

text \<open>The member order of \<^verbatim>\<open>HighsDomainChange{downval, col, HighsBoundType::kUpper}\<close>.\<close>

record HighsDomainChange =
  boundval :: real
  column :: int
  boundtype :: HighsBoundType

datatype HighsBasis = Basis nat

record StabilizerOrbits =
  orbitCols :: "int list"
  stabilizedCols :: "int list"

datatype NodeResult =
  kBoundExceeding | kDomainInfeasible | kLpInfeasible | kBranched | kSubOptimal | kOpen

record NodeData =
  lower_bound :: real
  estimate :: real
  branching_point :: real
  lp_objective :: real
  nodeBasis :: "HighsBasis option"
  stabilizerOrbits :: "StabilizerOrbits option"
  branchingdecision :: HighsDomainChange
  domgchgStackPos :: int
  skipDepthCount :: nat
  opensubtrees :: nat

text \<open>
  Modelled from the spec: the class \<^verbatim>\<open>HighsDomain\<close> (mip/HighsDomain.h) is not among
  the sources. The spec gives the domain a stack of domain changes: pushing a change
  changes the local bounds, popping restores them. The model keeps the stack, the
  positions of the changes pushed as branchings, and the infeasibility flag.
\<close>

record HighsDomain =
  domchgstack :: "HighsDomainChange list"
  branchPos :: "nat list"
  infeasible :: bool

text \<open>An open node of the shared queue, as \<^verbatim>\<open>emplaceNode\<close> receives it.\<close>

record OpenNode =
  open_domchgstack :: "HighsDomainChange list"
  open_branchings :: "nat list"
  open_lower_bound :: real
  open_estimate :: real
  open_depth :: int

datatype Observation =
  AddObservation int real real
  | AddCutoffObservation int bool
  | AddInferenceObservation int int bool

record HighsPseudocost =
  minreliable :: int
  degeneracyFactor :: real
  observed :: "Observation list"

record HighsMipSolverData =
  num_nodes :: int
  pruned_treeweight :: real
  total_lp_iterations :: int
  heuristic_lp_iterations :: int
  sb_lp_iterations :: int
  mip_upper_limit :: real
  feastol :: real
  epsilon :: real
  globalOrbits :: "StabilizerOrbits option"

text \<open>The calls to the collaborators whose effect the model does not compute.\<close>

datatype Call =
  Propagate
  | OrbitalFixing
  | ComputeStabilizerOrbits
  | ConflictAnalysis
  | ClearChangedCols
  | BacktrackToGlobal
  | FlushDomain
  | SetObjectiveLimit real
  | SetStoredBasis "HighsBasis option"
  | RecoverBasis
  | ResolveLp
  | StoreBasis
  | ResetAges
  | AddIncumbent real
  | AddBoundExceedingConflict
  | AddInfeasibleConflict
  | PropagateRedCost
  | NodePruned

record HighsSearch =
  nodestack :: "NodeData list"
  localdom :: HighsDomain
  pseudocost :: HighsPseudocost
  mipdata :: HighsMipSolverData
  nnodes :: int
  treeweight :: real
  depthoffset :: int
  lpiterations :: int
  heurlpiterations :: int
  sblpiterations :: int
  upper_limit :: real
  inheuristic :: bool
  subrootsol :: "real list"
  calls :: "Call list"

text \<open>What \<^verbatim>\<open>lp->resolveLp(&localdom)\<close> answers and leaves in the LP relaxation.\<close>

record LpOutcome =
  lpScaledOptimal :: bool
  lpUnscaledPrimalFeasible :: bool
  lpUnscaledDualFeasible :: bool
  lpInfeasible :: bool
  lpObjectiveBound :: bool
  lpObjective :: real
  lpFractionalIntegers :: "(int \<times> real) list"
  lpBestEstimate :: real
  lpStoredBasis :: "HighsBasis option"
  lpNumIterations :: int
  lpImplied :: "HighsDomainChange list"
  lpDomainInfeasible :: bool

record Collaborators =
  kHighsInf :: real
  roundDouble :: "real \<Rightarrow> real"
  isContinuous :: "int \<Rightarrow> bool"
  isGlobalBinary :: "int \<Rightarrow> bool"
  isBinary :: "int \<Rightarrow> bool"
  columnPosition :: "int \<Rightarrow> int"
  numPerms :: int
  isStabilized :: "StabilizerOrbits \<Rightarrow> int \<Rightarrow> bool"
  changeInfeasible :: "HighsSearch \<Rightarrow> HighsDomainChange \<Rightarrow> bool"
  propagation :: "HighsSearch \<Rightarrow> HighsDomainChange list \<times> bool"
  orbitalFixings :: "StabilizerOrbits \<Rightarrow> HighsSearch \<Rightarrow> int \<times> HighsDomainChange list \<times> bool"
  stabilizerOrbitsOf :: "HighsSearch \<Rightarrow> StabilizerOrbits"
  getScoreUp :: "HighsPseudocost \<Rightarrow> int \<Rightarrow> real \<Rightarrow> real"
  getScoreDown :: "HighsPseudocost \<Rightarrow> int \<Rightarrow> real \<Rightarrow> real"
  lpResolve :: "HighsSearch \<Rightarrow> LpOutcome"
  redCostFixings :: "HighsSearch \<Rightarrow> HighsDomainChange list \<times> bool"
  changedColsEmpty :: "HighsSearch \<Rightarrow> bool"
  incumbentLimit :: "HighsSearch \<Rightarrow> real \<Rightarrow> real"
  computeLPDegneracy :: "HighsSearch \<Rightarrow> real"
  basisFitsLp :: "HighsSearch \<Rightarrow> HighsBasis option \<Rightarrow> bool"

subsection \<open>The local domain\<close>

definition logCall :: "Call \<Rightarrow> HighsSearch \<Rightarrow> HighsSearch" where
  "logCall c s = s\<lparr>calls := calls s @ [c]\<rparr>"

text \<open>
  Modelled from the spec: a change pushed on the stack; \<open>branching\<close> says whether its
  position is recorded as a branching position.
\<close>

definition pushChange :: "bool \<Rightarrow> HighsDomainChange \<Rightarrow> HighsDomain \<Rightarrow> HighsDomain" where
  "pushChange branching chg d =
     d\<lparr>domchgstack := domchgstack d @ [chg],
       branchPos := (if branching then branchPos d @ [length (domchgstack d)] else branchPos d)\<rparr>"

text \<open>
  Modelled from the spec: changes implied by propagation, orbital fixing, the LP or
  reduced costs are pushed one by one, none as a branching; the collaborator says
  whether the domain ends infeasible.
\<close>

definition pushImplied :: "HighsDomainChange list \<times> bool \<Rightarrow> HighsDomain \<Rightarrow> HighsDomain" where
  "pushImplied r d =
     (fold (pushChange False) (fst r) d)\<lparr>infeasible := infeasible d \<or> snd r\<rparr>"

text \<open>
  Modelled from the spec: \<^verbatim>\<open>localdom.changeBound(domchg)\<close> with the default reason,
  a branching. The change is pushed and its position recorded.
\<close>

definition changeBound :: "Collaborators \<Rightarrow> HighsDomainChange \<Rightarrow> HighsSearch \<Rightarrow> HighsSearch" where
  "changeBound env chg s =
     s\<lparr>localdom := (pushChange True chg (localdom s))
          \<lparr>infeasible := infeasible (localdom s) \<or> changeInfeasible env s chg\<rparr>\<rparr>"

text \<open>
  Modelled from the spec: \<^verbatim>\<open>localdom.propagate()\<close>. An infeasible domain is left as
  it is.
\<close>

definition propagate :: "Collaborators \<Rightarrow> HighsSearch \<Rightarrow> HighsSearch" where
  "propagate env s =
     logCall Propagate
       (if infeasible (localdom s) then s
        else s\<lparr>localdom := pushImplied (propagation env s) (localdom s)\<rparr>)"

text \<open>
  Modelled from the spec: \<^verbatim>\<open>stabilizerOrbits->orbitalFixing(localdom)\<close>; the first
  component is the number of fixings it returns.
\<close>

definition orbitalFixing :: "Collaborators \<Rightarrow> StabilizerOrbits \<Rightarrow> HighsSearch \<Rightarrow> int \<times> HighsSearch" where
  "orbitalFixing env orbits s =
     (let r = orbitalFixings env orbits s
      in (fst r, logCall OrbitalFixing (s\<lparr>localdom := pushImplied (snd r) (localdom s)\<rparr>)))"

text \<open>
  Modelled from the spec: \<^verbatim>\<open>localdom.backtrack()\<close> pops the stack down to and with
  the last branching change, which it returns, and the domain is feasible again.
  With no branching change on the stack everything is popped and the change
  returned has column \<open>-1\<close>.
\<close>

definition domain_backtrack :: "HighsDomain \<Rightarrow> HighsDomainChange \<times> HighsDomain" where
  "domain_backtrack d =
     (if branchPos d = [] \<or> length (domchgstack d) \<le> last (branchPos d)
      then (\<lparr>boundval = 0, column = - 1, boundtype = kLower\<rparr>,
            d\<lparr>domchgstack := [], branchPos := [], infeasible := False\<rparr>)
      else (domchgstack d ! last (branchPos d),
            d\<lparr>domchgstack := take (last (branchPos d)) (domchgstack d),
              branchPos := butlast (branchPos d),
              infeasible := False\<rparr>))"

definition backtrackDomain :: "HighsSearch \<Rightarrow> HighsDomainChange \<times> HighsSearch" where
  "backtrackDomain s =
     (let r = domain_backtrack (localdom s) in (fst r, s\<lparr>localdom := snd r\<rparr>))"

text \<open>Modelled from the spec: \<^verbatim>\<open>localdom.backtrackToGlobal()\<close> pops every change.\<close>

definition backtrackToGlobal :: "HighsSearch \<Rightarrow> HighsSearch" where
  "backtrackToGlobal s =
     logCall BacktrackToGlobal
       (s\<lparr>localdom := \<lparr>domchgstack = [], branchPos = [], infeasible = False\<rparr>\<rparr>)"

text \<open>
  Modelled from the spec: \<^verbatim>\<open>getReducedDomainChangeStack(branchPositions)\<close> hands out
  the stack of changes and the positions of the branchings, and
  \<^verbatim>\<open>setDomainChangeStack(stack, branchings)\<close> replays such a pair on the global
  domain: the changes are pushed in order, the ones at a listed position as
  branchings.
\<close>

definition getReducedDomainChangeStack :: "HighsDomain \<Rightarrow> HighsDomainChange list \<times> nat list" where
  "getReducedDomainChangeStack d = (domchgstack d, branchPos d)"

definition setDomainChangeStack :: "HighsDomainChange list \<Rightarrow> nat list \<Rightarrow> HighsDomain" where
  "setDomainChangeStack stack branchings =
     \<lparr>domchgstack = stack,
      branchPos = filter (\<lambda>i. i \<in> set branchings) [0..<length stack],
      infeasible = False\<rparr>"

subsection \<open>Frames\<close>

text \<open>
  Modelled from the spec: the constructor of \<^verbatim>\<open>NodeData\<close> (mip/HighsSearch.h) is not
  among the sources. A fresh frame has both subtrees open, no LP objective
  (\<open>-\<infinity>\<close>), no skipped depth and no branching column; its position in the
  domain-change stack is set by the caller. The value of \<open>branching_point\<close> is not
  read before a branching sets it.
\<close>

definition newNodeData ::
  "Collaborators \<Rightarrow> real \<Rightarrow> real \<Rightarrow> HighsBasis option \<Rightarrow> StabilizerOrbits option \<Rightarrow> NodeData" where
  "newNodeData env parentlb parentestimate parentBasis orbits =
     \<lparr>lower_bound = parentlb,
      estimate = parentestimate,
      branching_point = 0,
      lp_objective = - kHighsInf env,
      nodeBasis = parentBasis,
      stabilizerOrbits = orbits,
      branchingdecision = \<lparr>boundval = 0, column = - 1, boundtype = kLower\<rparr>,
      domgchgStackPos = - 1,
      skipDepthCount = 0,
      opensubtrees = 2\<rparr>"

text \<open>\<^verbatim>\<open>nodestack.back() = f(nodestack.back())\<close> and \<^verbatim>\<open>nodestack[size - 2] = ...\<close>.\<close>

definition updateLast :: "('a \<Rightarrow> 'a) \<Rightarrow> 'a list \<Rightarrow> 'a list" where
  "updateLast f xs = (if xs = [] then [] else butlast xs @ [f (last xs)])"

definition updateParent :: "('a \<Rightarrow> 'a) \<Rightarrow> 'a list \<Rightarrow> 'a list" where
  "updateParent f xs = (if length xs < 2 then xs else updateLast f (butlast xs) @ [last xs])"

text \<open>
  Modelled from the spec: \<^verbatim>\<open>getCurrentDepth\<close> is declared in mip/HighsSearch.h. The
  spec counts the root frame at logical depth \<open>stack_size - 1 + depth_offset\<close>, and
  a pruned root adds the weight \<open>1\<close>, which the code computes as
  \<^verbatim>\<open>pow(0.5, getCurrentDepth() - 1)\<close>: the getter is one more than the logical depth.
\<close>

definition getCurrentDepth :: "HighsSearch \<Rightarrow> int" where
  "getCurrentDepth s = int (length (nodestack s)) + depthoffset s"

text \<open>\<^verbatim>\<open>std::pow(0.5, n)\<close> for an integer \<open>n\<close>.\<close>

definition pow_half :: "int \<Rightarrow> real" where
  "pow_half n = (if 0 \<le> n then (1 / 2) ^ nat n else 2 ^ nat (- n))"

subsection \<open>The functions of HighsSearch.cpp\<close>

text \<open>
  \<^verbatim>\<open>orbitsValidInChildNode\<close>, lines 62 to 79. Its callers have taken the last frame
  before, so the node stack is not empty.
\<close>

definition orbitsValidInChildNode :: "Collaborators \<Rightarrow> HighsSearch \<Rightarrow> HighsDomainChange \<Rightarrow> bool" where
  "orbitsValidInChildNode env s branchChg =
     (let branchCol = column branchChg;
          currNode = last (nodestack s)
      in if (case stabilizerOrbits currNode of
               None \<Rightarrow> True
             | Some orbits \<Rightarrow> orbitCols orbits = [] \<or> isStabilized env orbits branchCol)
         then True
         else if boundtype branchChg = kUpper \<and> isGlobalBinary env (column branchChg)
         then True
         else False)"

definition getCutoffBound :: "HighsSearch \<Rightarrow> real" where
  "getCutoffBound s = min (mip_upper_limit (mipdata s)) (upper_limit s)"

text \<open>\<^verbatim>\<open>createNewNode\<close>, lines 128 to 131.\<close>

definition createNewNode :: "Collaborators \<Rightarrow> HighsSearch \<Rightarrow> HighsSearch" where
  "createNewNode env s =
     s\<lparr>nodestack := nodestack s @
         [(newNodeData env (- kHighsInf env) (- kHighsInf env) None None)
            \<lparr>domgchgStackPos := int (length (domchgstack (localdom s)))\<rparr>]\<rparr>"

definition cutoffNode :: "HighsSearch \<Rightarrow> HighsSearch option" where
  "cutoffNode s =
     (if nodestack s = [] then None
      else Some (s\<lparr>nodestack := updateLast (\<lambda>n. n\<lparr>opensubtrees := 0\<rparr>) (nodestack s)\<rparr>))"

text \<open>\<^verbatim>\<open>branchDownwards\<close>, lines 139 to 160.\<close>

definition branchDownwards ::
  "Collaborators \<Rightarrow> int \<Rightarrow> real \<Rightarrow> real \<Rightarrow> HighsSearch \<Rightarrow> HighsSearch option" where
  "branchDownwards env col newub branchpoint s =
     (if nodestack s = [] then None
      else if opensubtrees (last (nodestack s)) \<noteq> 2 then None
      else if isContinuous env col then None
      else
        let currnode = (last (nodestack s))
              \<lparr>opensubtrees := 1,
               branching_point := branchpoint,
               branchingdecision := \<lparr>boundval = newub, column = col, boundtype = kUpper\<rparr>\<rparr>;
            s1 = s\<lparr>nodestack := butlast (nodestack s) @ [currnode]\<rparr>;
            domchgPos = int (length (domchgstack (localdom s1)));
            passStabilizerToChildNode = orbitsValidInChildNode env s1 (branchingdecision currnode);
            s2 = changeBound env (branchingdecision currnode) s1
        in Some (s2\<lparr>nodestack := nodestack s2 @
             [(newNodeData env (lower_bound currnode) (estimate currnode) (nodeBasis currnode)
                 (if passStabilizerToChildNode then stabilizerOrbits currnode else None))
                \<lparr>domgchgStackPos := domchgPos\<rparr>]\<rparr>))"

text \<open>\<^verbatim>\<open>branchUpwards\<close>, lines 162 to 183.\<close>

definition branchUpwards ::
  "Collaborators \<Rightarrow> int \<Rightarrow> real \<Rightarrow> real \<Rightarrow> HighsSearch \<Rightarrow> HighsSearch option" where
  "branchUpwards env col newlb branchpoint s =
     (if nodestack s = [] then None
      else if opensubtrees (last (nodestack s)) \<noteq> 2 then None
      else if isContinuous env col then None
      else
        let currnode = (last (nodestack s))
              \<lparr>opensubtrees := 1,
               branching_point := branchpoint,
               branchingdecision := \<lparr>boundval = newlb, column = col, boundtype = kLower\<rparr>\<rparr>;
            s1 = s\<lparr>nodestack := butlast (nodestack s) @ [currnode]\<rparr>;
            domchgPos = int (length (domchgstack (localdom s1)));
            passStabilizerToChildNode = orbitsValidInChildNode env s1 (branchingdecision currnode);
            s2 = changeBound env (branchingdecision currnode) s1
        in Some (s2\<lparr>nodestack := nodestack s2 @
             [(newNodeData env (lower_bound currnode) (estimate currnode) (nodeBasis currnode)
                 (if passStabilizerToChildNode then stabilizerOrbits currnode else None))
                \<lparr>domgchgStackPos := domchgPos\<rparr>]\<rparr>))"

text \<open>
  \<^verbatim>\<open>addBoundExceedingConflict\<close> and \<^verbatim>\<open>addInfeasibleConflict\<close>, lines 185 to 242:
  the dual proof, the conflict analysis and the cut generation are the
  collaborators' work, which leaves the search and the domain stack as they are.
\<close>

definition addBoundExceedingConflict :: "Collaborators \<Rightarrow> HighsSearch \<Rightarrow> HighsSearch" where
  "addBoundExceedingConflict env s =
     (if mip_upper_limit (mipdata s) \<noteq> kHighsInf env
      then logCall AddBoundExceedingConflict s else s)"

definition addInfeasibleConflict :: "HighsSearch \<Rightarrow> HighsSearch" where
  "addInfeasibleConflict s = logCall AddInfeasibleConflict s"

text \<open>A call to the pseudocost store that records an observation.\<close>

definition observe :: "Observation \<Rightarrow> HighsSearch \<Rightarrow> HighsSearch" where
  "observe ob s = s\<lparr>pseudocost := (pseudocost s)\<lparr>observed := observed (pseudocost s) @ [ob]\<rparr>\<rparr>"

definition setMinReliable :: "int \<Rightarrow> HighsSearch \<Rightarrow> HighsSearch" where
  "setMinReliable n s = s\<lparr>pseudocost := (pseudocost s)\<lparr>minreliable := n\<rparr>\<rparr>"

definition setDegeneracyFactor :: "real \<Rightarrow> HighsSearch \<Rightarrow> HighsSearch" where
  "setDegeneracyFactor f s = s\<lparr>pseudocost := (pseudocost s)\<lparr>degeneracyFactor := f\<rparr>\<rparr>"

definition setCurrnode :: "(NodeData \<Rightarrow> NodeData) \<Rightarrow> HighsSearch \<Rightarrow> HighsSearch" where
  "setCurrnode f s = s\<lparr>nodestack := updateLast f (nodestack s)\<rparr>"

text \<open>
  \<^verbatim>\<open>selectBranchingCandidate\<close>, the trial of one branch of the candidate
  \<open>(col, fracval)\<close> up to the call of the LP: lines 365 to 406 for the down branch,
  lines 365 to 369 and 530 to 560 for the up branch. The function either returns
  (\<open>Returned\<close>, with the value) or goes on to solve the LP of the trial
  (\<open>SolveLp\<close>: lines 408 to 528 and 562 to 684 are not part of the model).

  Lines 375 to 386 and 533 to 541: the trial bound is applied and propagated, and
  the orbital fixing runs where the stabilizer is valid for the trial bound.
\<close>

definition selectBranchingCandidate_trial ::
  "Collaborators \<Rightarrow> HighsDomainChange \<Rightarrow> HighsSearch \<Rightarrow> HighsSearch" where
  "selectBranchingCandidate_trial env domchg s =
     (let orbitalFixing0 =
            (stabilizerOrbits (last (nodestack s)) \<noteq> None \<and> orbitsValidInChildNode env s domchg);
          s1 = propagate env (changeBound env domchg s);
          orbitalFixing1 = (if infeasible (localdom s1) then False else orbitalFixing0)
      in case stabilizerOrbits (last (nodestack s1)) of
           Some orbits \<Rightarrow> if orbitalFixing1 then snd (orbitalFixing env orbits s1) else s1
         | None \<Rightarrow> s1)"

datatype Trial = Returned int HighsSearch | SolveLp HighsSearch

definition selectBranchingCandidate_down ::
  "Collaborators \<Rightarrow> int \<Rightarrow> real \<Rightarrow> HighsSearch \<Rightarrow> Trial option" where
  "selectBranchingCandidate_down env col fracval s =
     (if nodestack s = [] then None
      else
        let upval = of_int \<lceil>fracval\<rceil>;
            downval = of_int \<lfloor>fracval\<rfloor>;
            inferences0 = - int (length (domchgstack (localdom s))) - 1;
            domchg = \<lparr>boundval = downval, column = col, boundtype = kUpper\<rparr>;
            s2 = selectBranchingCandidate_trial env domchg s;
            inferences = inferences0 + int (length (domchgstack (localdom s2)))
        in if infeasible (localdom s2) then
             (let s3 = logCall ClearChangedCols
                         (snd (backtrackDomain
                            (observe (AddCutoffObservation col False)
                               (logCall ConflictAnalysis s2))))
              in case branchUpwards env col upval fracval s3 of
                   None \<Rightarrow> None
                 | Some s4 \<Rightarrow>
                     let s5 = s4\<lparr>nodestack :=
                                  updateParent (\<lambda>n. n\<lparr>opensubtrees := 0, skipDepthCount := 1\<rparr>)
                                    (nodestack s4),
                                depthoffset := depthoffset s4 - 1\<rparr>
                     in Some (Returned (- 1)
                          (logCall (SetStoredBasis (nodeBasis (last (nodestack s5)))) s5)))
           else Some (SolveLp
                  (logCall FlushDomain (observe (AddInferenceObservation col inferences False) s2))))"

definition selectBranchingCandidate_up ::
  "Collaborators \<Rightarrow> int \<Rightarrow> real \<Rightarrow> HighsSearch \<Rightarrow> Trial option" where
  "selectBranchingCandidate_up env col fracval s =
     (if nodestack s = [] then None
      else
        let upval = of_int \<lceil>fracval\<rceil>;
            downval = of_int \<lfloor>fracval\<rfloor>;
            inferences0 = - int (length (domchgstack (localdom s))) - 1;
            domchg = \<lparr>boundval = upval, column = col, boundtype = kLower\<rparr>;
            s2 = selectBranchingCandidate_trial env domchg s;
            inferences = inferences0 + int (length (domchgstack (localdom s2)))
        in if infeasible (localdom s2) then
             (let s3 = logCall ClearChangedCols
                         (snd (backtrackDomain
                            (observe (AddCutoffObservation col True)
                               (logCall ConflictAnalysis s2))))
              in case branchDownwards env col downval fracval s3 of
                   None \<Rightarrow> None
                 | Some s4 \<Rightarrow>
                     let s5 = s4\<lparr>nodestack :=
                                  updateParent (\<lambda>n. n\<lparr>opensubtrees := 0, skipDepthCount := 1\<rparr>)
                                    (nodestack s4),
                                depthoffset := depthoffset s4 - 1\<rparr>
                     in Some (Returned (- 1)
                          (logCall (SetStoredBasis (nodeBasis (last (nodestack s5)))) s5)))
           else Some (SolveLp
                  (logCall FlushDomain (observe (AddInferenceObservation col inferences True) s2))))"

text \<open>\<^verbatim>\<open>getParentNodeData\<close>, lines 688 to 692.\<close>

definition getParentNodeData :: "HighsSearch \<Rightarrow> NodeData option" where
  "getParentNodeData s =
     (if length (nodestack s) \<le> 1 then None
      else Some (nodestack s ! (length (nodestack s) - 2)))"

text \<open>\<^verbatim>\<open>flushStatistics\<close> and the getters, lines 765 to 794.\<close>

definition flushStatistics :: "Collaborators \<Rightarrow> HighsSearch \<Rightarrow> HighsSearch" where
  "flushStatistics env s =
     s\<lparr>mipdata := (mipdata s)
          \<lparr>num_nodes := num_nodes (mipdata s) + nnodes s,
           pruned_treeweight := roundDouble env (pruned_treeweight (mipdata s) + treeweight s),
           total_lp_iterations := total_lp_iterations (mipdata s) + lpiterations s,
           heuristic_lp_iterations := heuristic_lp_iterations (mipdata s) + heurlpiterations s,
           sb_lp_iterations := sb_lp_iterations (mipdata s) + sblpiterations s\<rparr>,
       nnodes := 0,
       treeweight := 0,
       lpiterations := 0,
       heurlpiterations := 0,
       sblpiterations := 0\<rparr>"




text \<open>
  \<^verbatim>\<open>installNode\<close>, lines 812 to 837. The loop of lines 820 to 830 over the
  branching positions is \<open>globalSymmetriesValid\<close>.
\<close>

fun globalSymmetriesValid :: "Collaborators \<Rightarrow> HighsDomainChange list \<Rightarrow> nat list \<Rightarrow> bool" where
  "globalSymmetriesValid env domchgstack' [] = True"
| "globalSymmetriesValid env domchgstack' (i # branchpos) =
     (let col = column (domchgstack' ! i)
      in if columnPosition env col = - 1 then globalSymmetriesValid env domchgstack' branchpos
         else if \<not> isBinary env col
                 \<or> (boundtype (domchgstack' ! i) = kLower \<and> boundval (domchgstack' ! i) = 1)
         then False
         else globalSymmetriesValid env domchgstack' branchpos)"

definition installNode :: "Collaborators \<Rightarrow> OpenNode \<Rightarrow> HighsSearch \<Rightarrow> HighsSearch" where
  "installNode env node s =
     (let s1 = s\<lparr>localdom := setDomainChangeStack (open_domchgstack node) (open_branchings node)\<rparr>;
          valid = (if globalOrbits (mipdata s1) \<noteq> None
                   then globalSymmetriesValid env (domchgstack (localdom s1)) (branchPos (localdom s1))
                   else True)
      in s1\<lparr>nodestack := nodestack s1 @
              [newNodeData env (open_lower_bound node) (open_estimate node) None
                 (if valid then globalOrbits (mipdata s1) else None)],
            subrootsol := [],
            depthoffset := open_depth node - 1\<rparr>)"

text \<open>
  \<^verbatim>\<open>evaluateNode\<close>, lines 839 to 997. The block that records a cutoff observation
  for the parent's branching stands three times in the source (lines 872 to 878,
  900 to 906 and 980 to 986).
\<close>

definition parentCutoffObservation ::
  "Collaborators \<Rightarrow> NodeData option \<Rightarrow> HighsSearch \<Rightarrow> HighsSearch" where
  "parentCutoffObservation env parent s =
     (case parent of
        None \<Rightarrow> s
      | Some p \<Rightarrow>
          if lp_objective p \<noteq> - kHighsInf env
             \<and> branching_point p \<noteq> boundval (branchingdecision p)
          then observe (AddCutoffObservation (column (branchingdecision p))
                          (boundtype (branchingdecision p) = kLower)) s
          else s)"

text \<open>
  One run through the body up to line 988: either the function calls itself
  (\<open>Again\<close>, line 956) or it reaches the last block with a result (\<open>Result\<close>).
\<close>

datatype Pass = Again HighsSearch | Result NodeResult HighsSearch

text \<open>Lines 909 to 972: the LP is optimal in the scaled model.\<close>

definition evaluateNode_scaledOptimal ::
  "Collaborators \<Rightarrow> NodeData option \<Rightarrow> LpOutcome \<Rightarrow> HighsSearch \<Rightarrow> Pass" where
  "evaluateNode_scaledOptimal env parent out s =
     (let s1 = setCurrnode
                 (\<lambda>n. n\<lparr>nodeBasis := lpStoredBasis out,
                        estimate := lpBestEstimate out,
                        lp_objective := lpObjective out\<rparr>)
                 (logCall ResetAges (logCall StoreBasis s));
          currnode = last (nodestack s1);
          s2 = (case parent of
                  None \<Rightarrow> s1
                | Some p \<Rightarrow>
                    if lp_objective p \<noteq> - kHighsInf env
                       \<and> branching_point p \<noteq> boundval (branchingdecision p)
                    then observe (AddObservation (column (branchingdecision p))
                           (roundDouble env (boundval (branchingdecision p) - branching_point p))
                           (max 0 (roundDouble env (lp_objective currnode - lp_objective p)))) s1
                    else s1);
          found = (lpUnscaledPrimalFeasible out \<and> lpFractionalIntegers out = []);
          s3 = (if found then
                  let cutoffbnd = getCutoffBound s2;
                      s2a = (logCall (AddIncumbent (lpObjective out)) s2)
                              \<lparr>mipdata := (mipdata s2)
                                 \<lparr>mip_upper_limit := incumbentLimit env s2 (lpObjective out)\<rparr>\<rparr>;
                      s2b = (if mip_upper_limit (mipdata s2a) < cutoffbnd
                             then logCall (SetObjectiveLimit (mip_upper_limit (mipdata s2a))) s2a
                             else s2a)
                  in addBoundExceedingConflict env s2b
                else s2)
      in if found then Result kBoundExceeding s3
         else if lpUnscaledDualFeasible out then
           (let s4 = setCurrnode (\<lambda>n. n\<lparr>lower_bound := max (lp_objective n) (lower_bound n)\<rparr>) s3
            in if lower_bound (last (nodestack s4)) > getCutoffBound s4
               then Result kBoundExceeding (addBoundExceedingConflict env s4)
               else if mip_upper_limit (mipdata s4) \<noteq> kHighsInf env then
                 (let s5 = (logCall PropagateRedCost s4)
                             \<lparr>localdom := pushImplied (redCostFixings env s4) (localdom s4)\<rparr>
                  in if infeasible (localdom s5)
                     then Result kBoundExceeding
                            (logCall ClearChangedCols (addBoundExceedingConflict env s5))
                     else if \<not> changedColsEmpty env s5 then Again s5
                     else Result kOpen s5)
               else Result kOpen s4)
         else if lpObjective out > getCutoffBound s3 then
           (let s4 = propagate env (addBoundExceedingConflict env s3)
            in if infeasible (localdom s4) then Result kBoundExceeding s4 else Result kOpen s4)
         else Result kOpen s3)"

definition evaluateNode_pass :: "Collaborators \<Rightarrow> HighsSearch \<Rightarrow> Pass" where
  "evaluateNode_pass env s =
     (let parent = getParentNodeData s;
          s1 = propagate env s;
          s2 = (if \<not> infeasible (localdom s1) then
                  (let s1a =
                     (if numPerms env > 0
                         \<and> stabilizerOrbits (last (nodestack s1)) = None
                         \<and> (case parent of
                               None \<Rightarrow> True
                             | Some p \<Rightarrow>
                                 (case stabilizerOrbits p of
                                    None \<Rightarrow> True
                                  | Some orbits \<Rightarrow> orbitCols orbits \<noteq> []))
                      then logCall ComputeStabilizerOrbits
                             (setCurrnode
                                (\<lambda>n. n\<lparr>stabilizerOrbits := Some (stabilizerOrbitsOf env s1)\<rparr>) s1)
                      else s1)
                   in case stabilizerOrbits (last (nodestack s1a)) of
                        None \<Rightarrow> s1a
                      | Some orbits \<Rightarrow> snd (orbitalFixing env orbits s1a))
                else s1);
          s3 = (case parent of
                  None \<Rightarrow> s2
                | Some p \<Rightarrow>
                    observe (AddInferenceObservation (column (branchingdecision p))
                      (int (length (domchgstack (localdom s2)))
                         - (domgchgStackPos (last (nodestack s2)) + 1))
                      (boundtype (branchingdecision p) = kLower)) s2)
      in if infeasible (localdom s3)
         then Result kDomainInfeasible
                (logCall ConflictAnalysis
                   (parentCutoffObservation env parent (logCall ClearChangedCols s3)))
         else
           (let s4 = logCall (SetObjectiveLimit (mip_upper_limit (mipdata s3)))
                       (logCall FlushDomain s3);
                out = lpResolve env s4;
                s5 = (logCall ResolveLp s4)
                       \<lparr>localdom := pushImplied (lpImplied out, lpDomainInfeasible out) (localdom s4),
                        lpiterations := lpiterations s4 + lpNumIterations out\<rparr>
            in if infeasible (localdom s5)
               then Result kDomainInfeasible
                      (logCall ConflictAnalysis
                         (parentCutoffObservation env parent (logCall ClearChangedCols s5)))
               else if lpScaledOptimal out then evaluateNode_scaledOptimal env parent out s5
               else if lpInfeasible out
               then Result (if lpObjectiveBound out then kBoundExceeding else kLpInfeasible)
                      (parentCutoffObservation env parent (addInfeasibleConflict s5))
               else Result kOpen s5))"

text \<open>Lines 990 to 996: a result other than \<open>kOpen\<close> prunes the node.\<close>

definition evaluateNode_close :: "Collaborators \<Rightarrow> NodeResult \<Rightarrow> HighsSearch \<Rightarrow> HighsSearch" where
  "evaluateNode_close env result s =
     (if result \<noteq> kOpen
      then setCurrnode (\<lambda>n. n\<lparr>opensubtrees := 0\<rparr>)
             ((logCall NodePruned s)
                \<lparr>treeweight := roundDouble env (treeweight s + pow_half (getCurrentDepth s - 1))\<rparr>)
      else s)"

partial_function (option) evaluateNode ::
  "Collaborators \<Rightarrow> HighsSearch \<Rightarrow> (NodeResult \<times> HighsSearch) option" where
  "evaluateNode env s =
     (if nodestack s = [] then None
      else case evaluateNode_pass env s of
             Again s' \<Rightarrow> evaluateNode env s'
           | Result result s' \<Rightarrow> Some (result, evaluateNode_close env result s'))"






text \<open>
  \<^verbatim>\<open>branch\<close>, lines 1299 to 1313: with the branching decision chosen and stored in
  the last frame, the child frame is opened. (The choice of the candidate and of the
  child, lines 1033 to 1297, is not part of the model.)
\<close>

definition branch_openChild :: "Collaborators \<Rightarrow> HighsSearch \<Rightarrow> (NodeResult \<times> HighsSearch) option" where
  "branch_openChild env s =
     (if nodestack s = [] then None
      else
        let currnode0 = last (nodestack s);
            domchgPos = int (length (domchgstack (localdom s)));
            passStabilizerToChildNode = orbitsValidInChildNode env s (branchingdecision currnode0);
            s1 = changeBound env (branchingdecision currnode0) s;
            currnode = currnode0\<lparr>opensubtrees := 1\<rparr>;
            s2 = s1\<lparr>nodestack := butlast (nodestack s1) @ [currnode]\<rparr>
        in Some (kBranched,
             s2\<lparr>nodestack := nodestack s2 @
                 [(newNodeData env (lower_bound currnode) (estimate currnode) (nodeBasis currnode)
                     (if passStabilizerToChildNode then stabilizerOrbits currnode else None))
                    \<lparr>domgchgStackPos := domchgPos\<rparr>]\<rparr>))"

subsection \<open>The backtracker\<close>

text \<open>
  The flip of the branching decision of the frame whose second subtree is opened:
  lines 1366 to 1381 of \<^verbatim>\<open>backtrack\<close>. The same statements stand in
  \<^verbatim>\<open>backtrackPlunge\<close> (lines 1473 to 1494) and in \<^verbatim>\<open>backtrackUntilDepth\<close>
  (lines 1607 to 1621).
\<close>

definition flipBranchingDecision :: "Collaborators \<Rightarrow> NodeData \<Rightarrow> NodeData" where
  "flipBranchingDecision env currnode =
     (let fallbackbranch =
            (boundval (branchingdecision currnode) = branching_point currnode);
          decision =
            (if boundtype (branchingdecision currnode) = kLower
             then (branchingdecision currnode)
                    \<lparr>boundtype := kUpper,
                     boundval :=
                       of_int \<lfloor>roundDouble env (boundval (branchingdecision currnode) - 1 / 2)\<rfloor>\<rparr>
             else (branchingdecision currnode)
                    \<lparr>boundtype := kLower,
                     boundval :=
                       of_int \<lceil>roundDouble env (boundval (branchingdecision currnode) + 1 / 2)\<rceil>\<rparr>)
      in currnode
           \<lparr>opensubtrees := 0,
            branchingdecision := decision,
            branching_point :=
              (if fallbackbranch then boundval decision else branching_point currnode)\<rparr>)"

text \<open>
  The assertions of lines 1353 to 1360 on the branching change that
  \<^verbatim>\<open>localdom.backtrack()\<close> returned, against the frame that is now the last one.
\<close>

definition backtrackedBranching :: "HighsDomainChange \<Rightarrow> NodeData \<Rightarrow> bool" where
  "backtrackedBranching branchchg n =
     (((boundtype branchchg = kLower \<and> boundval branchchg \<ge> boundval (branchingdecision n))
        \<or> (boundtype branchchg = kUpper \<and> boundval branchchg \<le> boundval (branchingdecision n)))
      \<and> boundtype branchchg = boundtype (branchingdecision n)
      \<and> column branchchg = column (branchingdecision n))"

text \<open>
  Lines 1340 to 1346 (and 1447 to 1453): the frame reached by a pop still has an
  open subtree, and its domain is propagated again.
\<close>

definition backtrack_repropagate :: "Collaborators \<Rightarrow> HighsSearch \<Rightarrow> HighsSearch" where
  "backtrack_repropagate env s =
     (let oldNumDomchgs = length (domchgstack (localdom s));
          s1 = propagate env s
      in case stabilizerOrbits (last (nodestack s1)) of
           Some orbits \<Rightarrow>
             if \<not> infeasible (localdom s1)
                \<and> oldNumDomchgs \<noteq> length (domchgstack (localdom s1))
             then snd (orbitalFixing env orbits s1)
             else s1
         | None \<Rightarrow> s1)"

datatype Unwound = Emptied HighsSearch | Popped HighsSearch

text \<open>
  One round of the inner loop of \<^verbatim>\<open>backtrack\<close>, lines 1323 to 1360 (and of
  \<^verbatim>\<open>backtrackPlunge\<close>, lines 1431 to 1467): the closed last frame is popped.
\<close>

definition backtrack_popFrame :: "HighsSearch \<Rightarrow> HighsSearch" where
  "backtrack_popFrame s =
     s\<lparr>depthoffset := depthoffset s + int (skipDepthCount (last (nodestack s))),
       nodestack := butlast (nodestack s)\<rparr>"

definition backtrack_pop :: "Collaborators \<Rightarrow> HighsSearch \<Rightarrow> Unwound option" where
  "backtrack_pop env s =
     (let s1 = backtrack_popFrame s
      in if nodestack s1 = [] then Some (Emptied (logCall FlushDomain (backtrackToGlobal s1)))
         else
           (let branchchg = fst (backtrackDomain s1);
                s2 = snd (backtrackDomain s1);
                s3 = (if opensubtrees (last (nodestack s2)) \<noteq> 0 then
                        (let s2b = backtrack_repropagate env s2
                         in if infeasible (localdom s2b)
                            then setCurrnode (\<lambda>n. n\<lparr>opensubtrees := 0\<rparr>)
                                   (logCall ClearChangedCols s2b)
                            else s2b)
                      else s2)
            in if backtrackedBranching branchchg (last (nodestack s3))
               then Some (Popped s3) else None))"

text \<open>
  Lines 1383 to 1397 (and 1497 to 1511): the flipped decision is applied to the
  local domain; \<open>fst\<close> of the result is \<^verbatim>\<open>prune\<close>.
\<close>

definition applyFlipped :: "Collaborators \<Rightarrow> bool \<Rightarrow> HighsSearch \<Rightarrow> bool \<times> HighsSearch" where
  "applyFlipped env passStabilizerToChildNode s =
     (let currnode = last (nodestack s);
          s1 = changeBound env (branchingdecision currnode) s;
          prune1 = (lower_bound (last (nodestack s1)) > getCutoffBound s1
                    \<or> infeasible (localdom s1));
          s2 = (if \<not> prune1 then propagate env s1 else s1);
          prune2 = (if \<not> prune1 then infeasible (localdom s2) else prune1);
          s3 = (if \<not> prune1 \<and> prune2 then logCall ConflictAnalysis s2 else s2)
      in case stabilizerOrbits currnode of
           Some orbits \<Rightarrow>
             if \<not> prune2 \<and> passStabilizerToChildNode
             then (let s4 = snd (orbitalFixing env orbits s3) in (infeasible (localdom s4), s4))
             else (prune2, s3)
         | None \<Rightarrow> (prune2, s3))"

datatype Flipped = Pruned HighsSearch | Descend HighsSearch

text \<open>Lines 1363 to 1410 of \<^verbatim>\<open>backtrack\<close>: the second subtree of the last frame.\<close>

definition backtrack_flip :: "Collaborators \<Rightarrow> HighsSearch \<Rightarrow> Flipped option" where
  "backtrack_flip env s =
     (if opensubtrees (last (nodestack s)) \<noteq> 1 then None
      else
        let currnode = flipBranchingDecision env (last (nodestack s));
            s1 = s\<lparr>nodestack := butlast (nodestack s) @ [currnode]\<rparr>;
            domchgPos = int (length (domchgstack (localdom s1)));
            passStabilizerToChildNode =
              orbitsValidInChildNode env s1 (branchingdecision currnode);
            prune = fst (applyFlipped env passStabilizerToChildNode s1);
            s2 = snd (applyFlipped env passStabilizerToChildNode s1)
        in if prune
           then Some (Pruned
                  ((logCall ClearChangedCols (snd (backtrackDomain s2)))
                     \<lparr>treeweight := roundDouble env (treeweight s2 + pow_half (getCurrentDepth s2))\<rparr>))
           else Some (Descend
                  (logCall FlushDomain
                     (s2\<lparr>nodestack := nodestack s2 @
                          [(newNodeData env (lower_bound currnode) (estimate currnode)
                              (nodeBasis currnode)
                              (if passStabilizerToChildNode then stabilizerOrbits currnode
                               else None))
                             \<lparr>domgchgStackPos := domchgPos\<rparr>]\<rparr>))))"

text \<open>
  What the steps leave of the node stack: the facts the termination of the loops
  rests on.
\<close>

lemma nodestack_logCall [simp]: "nodestack (logCall c s) = nodestack s"
  by (simp add: logCall_def)

lemma nodestack_observe [simp]: "nodestack (observe ob s) = nodestack s"
  by (simp add: observe_def)

lemma nodestack_changeBound [simp]: "nodestack (changeBound env chg s) = nodestack s"
  by (simp add: changeBound_def)

lemma nodestack_propagate [simp]: "nodestack (propagate env s) = nodestack s"
  by (simp add: propagate_def)

lemma nodestack_orbitalFixing [simp]: "nodestack (snd (orbitalFixing env orbits s)) = nodestack s"
  by (simp add: orbitalFixing_def Let_def)

lemma nodestack_backtrackDomain [simp]: "nodestack (snd (backtrackDomain s)) = nodestack s"
  by (simp add: backtrackDomain_def Let_def)

lemma nodestack_backtrackToGlobal [simp]: "nodestack (backtrackToGlobal s) = nodestack s"
  by (simp add: backtrackToGlobal_def)

lemma nodestack_setCurrnode [simp]: "nodestack (setCurrnode f s) = updateLast f (nodestack s)"
  by (simp add: setCurrnode_def)

lemma length_updateLast [simp]: "length (updateLast f xs) = length xs"
  by (simp add: updateLast_def)

lemma updateLast_Nil_iff [simp]: "updateLast f xs = [] \<longleftrightarrow> xs = []"
  by (simp add: updateLast_def)

lemma last_updateLast [simp]: "xs \<noteq> [] \<Longrightarrow> last (updateLast f xs) = f (last xs)"
  by (simp add: updateLast_def)

lemma butlast_updateLast [simp]: "butlast (updateLast f xs) = butlast xs"
  by (simp add: updateLast_def)

lemma nodestack_backtrack_repropagate [simp]:
  "nodestack (backtrack_repropagate env s) = nodestack s"
  by (simp add: backtrack_repropagate_def Let_def split: option.splits)

lemma nodestack_applyFlipped [simp]:
  "nodestack (snd (applyFlipped env pass s)) = nodestack s"
  by (simp add: applyFlipped_def Let_def split: option.splits)

lemma nodestack_backtrack_popFrame [simp]:
  "nodestack (backtrack_popFrame s) = butlast (nodestack s)"
  by (simp add: backtrack_popFrame_def)

lemma backtrack_pop_length:
  "backtrack_pop env s = Some (Popped s') \<Longrightarrow>
     length (nodestack s') = length (nodestack s) - 1 \<and> nodestack s' \<noteq> []"
  by (auto simp: backtrack_pop_def Let_def split: if_splits option.splits)

lemma backtrack_flip_Pruned:
  "backtrack_flip env s = Some (Pruned s') \<Longrightarrow> nodestack s \<noteq> [] \<Longrightarrow>
     nodestack s' = butlast (nodestack s) @ [flipBranchingDecision env (last (nodestack s))]"
  by (auto simp: backtrack_flip_def Let_def split: if_splits)

lemma opensubtrees_flip [simp]: "opensubtrees (flipBranchingDecision env n) = 0"
  by (simp add: flipBranchingDecision_def Let_def)

text \<open>
  The two loops of \<^verbatim>\<open>backtrack\<close>, lines 1321 to 1411: while the last frame is
  closed it is popped; then its second subtree is opened, and a pruned subtree sends
  the function round again. The result \<open>False\<close> is line 1329, the node stack is
  empty.
\<close>

function backtrack_loop :: "Collaborators \<Rightarrow> HighsSearch \<Rightarrow> (bool \<times> HighsSearch) option" where
  "backtrack_loop env s =
     (if nodestack s = [] then None
      else if opensubtrees (last (nodestack s)) = 0 then
        (case backtrack_pop env s of
           None \<Rightarrow> None
         | Some (Emptied s') \<Rightarrow> Some (False, s')
         | Some (Popped s') \<Rightarrow> backtrack_loop env s')
      else
        (case backtrack_flip env s of
           None \<Rightarrow> None
         | Some (Pruned s') \<Rightarrow> backtrack_loop env s'
         | Some (Descend s') \<Rightarrow> Some (True, s')))"
  by pat_completeness auto
termination
proof (relation "measure (\<lambda>(env, s). 2 * length (nodestack s)
                    + (if opensubtrees (last (nodestack s)) = 0 then 0 else 1))", goal_cases)
  case 1
  show ?case by simp
next
  case (2 env s x2 x1)
  then show ?case
    by (auto dest!: backtrack_pop_length simp: neq_Nil_conv)
next
  case (3 env s x2 x1)
  then show ?case
    by (auto dest!: backtrack_flip_Pruned)
qed

declare backtrack_loop.simps [simp del]

text \<open>\<^verbatim>\<open>backtrack\<close>, lines 1316 to 1419.\<close>

definition recoverNodeBasis :: "HighsSearch \<Rightarrow> HighsSearch" where
  "recoverNodeBasis s =
     (if nodeBasis (last (nodestack s)) \<noteq> None
      then logCall RecoverBasis (logCall (SetStoredBasis (nodeBasis (last (nodestack s)))) s)
      else s)"

definition backtrack :: "Collaborators \<Rightarrow> bool \<Rightarrow> HighsSearch \<Rightarrow> (bool \<times> HighsSearch) option" where
  "backtrack env recoverBasis s =
     (if nodestack s = [] then Some (False, s)
      else if opensubtrees (last (nodestack s)) \<noteq> 0 then None
      else case backtrack_loop env s of
             None \<Rightarrow> None
           | Some (found, s') \<Rightarrow>
               if \<not> found then Some (False, s')
               else Some (True, if recoverBasis then recoverNodeBasis s' else s'))"

text \<open>
  \<^verbatim>\<open>backtrackPlunge\<close>, lines 1474 to 1491: the score of the sibling that would be
  descended, read off the frame before its decision is flipped.
\<close>

definition plunge_nodeScore :: "Collaborators \<Rightarrow> HighsSearch \<Rightarrow> NodeData \<Rightarrow> real" where
  "plunge_nodeScore env s currnode =
     (let fallbackbranch =
            (boundval (branchingdecision currnode) = branching_point currnode)
      in if boundtype (branchingdecision currnode) = kLower
         then getScoreDown env (pseudocost s) (column (branchingdecision currnode))
                (if fallbackbranch then 1 / 2 else branching_point currnode)
         else getScoreUp env (pseudocost s) (column (branchingdecision currnode))
                (if fallbackbranch then 1 / 2 else branching_point currnode))"

text \<open>
  Lines 1525 to 1540: the scores of the inactive and of the active direction of an
  ancestor frame; the result is the double
  \<open>ancestorScoreInactive - ancestorScoreActive\<close>.
\<close>

definition plunge_ancestorGain :: "Collaborators \<Rightarrow> HighsSearch \<Rightarrow> NodeData \<Rightarrow> real" where
  "plunge_ancestorGain env s a =
     (let fallbackbranch = (boundval (branchingdecision a) = branching_point a);
          branchpoint = (if fallbackbranch then 1 / 2 else branching_point a);
          ancestorScoreInactive =
            (if boundtype (branchingdecision a) = kLower
             then getScoreDown env (pseudocost s) (column (branchingdecision a)) branchpoint
             else getScoreUp env (pseudocost s) (column (branchingdecision a)) branchpoint);
          ancestorScoreActive =
            (if boundtype (branchingdecision a) = kLower
             then getScoreUp env (pseudocost s) (column (branchingdecision a)) branchpoint
             else getScoreDown env (pseudocost s) (column (branchingdecision a)) branchpoint)
      in roundDouble env (ancestorScoreInactive - ancestorScoreActive))"

text \<open>
  Lines 1518 to 1548: the loop over the ancestors, from the frame below the last one
  down to the root. \<open>ancestors\<close> holds these frames in the order of the loop.
\<close>

fun plunge_nodeToQueue :: "Collaborators \<Rightarrow> HighsSearch \<Rightarrow> real \<Rightarrow> NodeData list \<Rightarrow> bool" where
  "plunge_nodeToQueue env s nodeScore [] = False"
| "plunge_nodeToQueue env s nodeScore (a # ancestors) =
     (if opensubtrees a = 0 then plunge_nodeToQueue env s nodeScore ancestors
      else plunge_ancestorGain env s a > roundDouble env (nodeScore + feastol (mipdata s)))"

datatype PlungeFlipped =
  PlungePruned HighsSearch | Parked HighsSearch OpenNode | PlungeDescend HighsSearch

text \<open>Lines 1470 to 1566 of \<^verbatim>\<open>backtrackPlunge\<close>: the second subtree of the last frame.\<close>

definition backtrackPlunge_flip :: "Collaborators \<Rightarrow> HighsSearch \<Rightarrow> PlungeFlipped option" where
  "backtrackPlunge_flip env s =
     (if opensubtrees (last (nodestack s)) \<noteq> 1 then None
      else
        let nodeScore = plunge_nodeScore env s (last (nodestack s));
            currnode = flipBranchingDecision env (last (nodestack s));
            s1 = s\<lparr>nodestack := butlast (nodestack s) @ [currnode]\<rparr>;
            domchgPos = int (length (domchgstack (localdom s1)));
            passStabilizerToChildNode =
              orbitsValidInChildNode env s1 (branchingdecision currnode);
            prune = fst (applyFlipped env passStabilizerToChildNode s1);
            s2 = snd (applyFlipped env passStabilizerToChildNode s1)
        in if prune
           then Some (PlungePruned
                  ((logCall ClearChangedCols (snd (backtrackDomain s2)))
                     \<lparr>treeweight := roundDouble env (treeweight s2 + pow_half (getCurrentDepth s2))\<rparr>))
           else if plunge_nodeToQueue env s2 nodeScore (rev (butlast (nodestack s2)))
           then (let s3 = logCall ClearChangedCols (snd (backtrackDomain s2))
                 in Some (Parked s3
                      \<lparr>open_domchgstack = fst (getReducedDomainChangeStack (localdom s3)),
                       open_branchings = snd (getReducedDomainChangeStack (localdom s3)),
                       open_lower_bound = lower_bound (last (nodestack s3)),
                       open_estimate = estimate (last (nodestack s3)),
                       open_depth = getCurrentDepth s3 + 1\<rparr>))
           else Some (PlungeDescend
                  (logCall FlushDomain
                     (s2\<lparr>nodestack := nodestack s2 @
                          [(newNodeData env (lower_bound currnode) (estimate currnode)
                              (nodeBasis currnode)
                              (if passStabilizerToChildNode then stabilizerOrbits currnode
                               else None))
                             \<lparr>domgchgStackPos := domchgPos\<rparr>]\<rparr>))))"

lemma backtrackPlunge_flip_continue:
  "backtrackPlunge_flip env s = Some r \<Longrightarrow> nodestack s \<noteq> [] \<Longrightarrow>
     (r = PlungePruned s' \<or> r = Parked s' node) \<Longrightarrow>
     nodestack s' = butlast (nodestack s) @ [flipBranchingDecision env (last (nodestack s))]"
  by (auto simp: backtrackPlunge_flip_def Let_def split: if_splits)

text \<open>
  The two loops of \<^verbatim>\<open>backtrackPlunge\<close>, lines 1429 to 1567, with the node queue
  the parked nodes are added to.
\<close>

function backtrackPlunge_loop ::
  "Collaborators \<Rightarrow> HighsSearch \<Rightarrow> OpenNode list \<Rightarrow> (bool \<times> HighsSearch \<times> OpenNode list) option" where
  "backtrackPlunge_loop env s nodequeue =
     (if nodestack s = [] then None
      else if opensubtrees (last (nodestack s)) = 0 then
        (case backtrack_pop env s of
           None \<Rightarrow> None
         | Some (Emptied s') \<Rightarrow> Some (False, s', nodequeue)
         | Some (Popped s') \<Rightarrow> backtrackPlunge_loop env s' nodequeue)
      else
        (case backtrackPlunge_flip env s of
           None \<Rightarrow> None
         | Some (PlungePruned s') \<Rightarrow> backtrackPlunge_loop env s' nodequeue
         | Some (Parked s' node) \<Rightarrow> backtrackPlunge_loop env s' (nodequeue @ [node])
         | Some (PlungeDescend s') \<Rightarrow> Some (True, s', nodequeue)))"
  by pat_completeness auto
termination
proof (relation "measure (\<lambda>(env, s, q). 2 * length (nodestack s)
                    + (if opensubtrees (last (nodestack s)) = 0 then 0 else 1))", goal_cases)
  case 1
  show ?case by simp
next
  case (2 env s q x2 x1)
  then show ?case
    by (auto dest!: backtrack_pop_length simp: neq_Nil_conv)
next
  case (3 env s q x2 x1)
  then show ?case
    by (auto dest!: backtrackPlunge_flip_continue)
next
  case (4 env s q x2 x1 x2a)
  then show ?case
    by (auto dest!: backtrackPlunge_flip_continue)
qed

declare backtrackPlunge_loop.simps [simp del]

text \<open>\<^verbatim>\<open>backtrackPlunge\<close>, lines 1421 to 1575.\<close>

definition backtrackPlunge ::
  "Collaborators \<Rightarrow> HighsSearch \<Rightarrow> OpenNode list \<Rightarrow> (bool \<times> HighsSearch \<times> OpenNode list) option" where
  "backtrackPlunge env s nodequeue =
     (if nodestack s = [] then Some (False, s, nodequeue)
      else if opensubtrees (last (nodestack s)) \<noteq> 0 then None
      else case backtrackPlunge_loop env s nodequeue of
             None \<Rightarrow> None
           | Some (found, s', nodequeue') \<Rightarrow>
               if \<not> found then Some (False, s', nodequeue')
               else Some (True, recoverNodeBasis s', nodequeue'))"

text \<open>
  The loop of \<^verbatim>\<open>backtrackUntilDepth\<close>, lines 1582 to 1603: the closed last frame
  is popped, and a frame at or below the target depth is closed in its turn.
\<close>

function backtrackUntilDepth_loop :: "int \<Rightarrow> HighsSearch \<Rightarrow> Unwound option" where
  "backtrackUntilDepth_loop targetDepth s =
     (if nodestack s = [] then None
      else if opensubtrees (last (nodestack s)) = 0 then
        (let s1 = s\<lparr>depthoffset := depthoffset s + int (skipDepthCount (last (nodestack s))),
                   nodestack := butlast (nodestack s)\<rparr>;
             branchchg = fst (backtrackDomain s1);
             s2 = snd (backtrackDomain s1)
         in if nodestack s2 = [] then Some (Emptied (logCall FlushDomain s2))
            else if \<not> backtrackedBranching branchchg (last (nodestack s2)) then None
            else backtrackUntilDepth_loop targetDepth
                   (if getCurrentDepth s2 \<ge> targetDepth
                    then setCurrnode (\<lambda>n. n\<lparr>opensubtrees := 0\<rparr>) s2 else s2))
      else Some (Popped s))"
  by pat_completeness auto
termination
  by (relation "measure (\<lambda>(t, s). length (nodestack s))") (auto simp: Let_def neq_Nil_conv)

declare backtrackUntilDepth_loop.simps [simp del]

text \<open>\<^verbatim>\<open>backtrackUntilDepth\<close>, lines 1577 to 1639.\<close>

definition backtrackUntilDepth ::
  "Collaborators \<Rightarrow> int \<Rightarrow> HighsSearch \<Rightarrow> (bool \<times> HighsSearch) option" where
  "backtrackUntilDepth env targetDepth s =
     (if nodestack s = [] then Some (False, s)
      else
        case backtrackUntilDepth_loop targetDepth
               (if getCurrentDepth s \<ge> targetDepth
                then setCurrnode (\<lambda>n. n\<lparr>opensubtrees := 0\<rparr>) s else s) of
          None \<Rightarrow> None
        | Some (Emptied s') \<Rightarrow> Some (False, s')
        | Some (Popped s1) \<Rightarrow>
            if opensubtrees (last (nodestack s1)) \<noteq> 1 then None
            else
              let currnode = flipBranchingDecision env (last (nodestack s1));
                  s2 = s1\<lparr>nodestack := butlast (nodestack s1) @ [currnode]\<rparr>;
                  domchgPos = int (length (domchgstack (localdom s2)));
                  passStabilizerToChildNode =
                    orbitsValidInChildNode env s2 (branchingdecision currnode);
                  s3 = changeBound env (branchingdecision currnode) s2;
                  s4 = logCall FlushDomain
                         (s3\<lparr>nodestack := nodestack s3 @
                              [(newNodeData env (lower_bound currnode) (estimate currnode)
                                  (nodeBasis currnode)
                                  (if passStabilizerToChildNode then stabilizerOrbits currnode
                                   else None))
                                 \<lparr>domgchgStackPos := domchgPos\<rparr>]\<rparr>);
                  s5 = (if nodeBasis (last (nodestack s4)) \<noteq> None
                           \<and> basisFitsLp env s4 (nodeBasis (last (nodestack s4)))
                        then logCall (SetStoredBasis (nodeBasis (last (nodestack s4)))) s4
                        else s4)
              in Some (True, logCall RecoverBasis s5))"

text \<open>
  \<^verbatim>\<open>currentNodeToQueue\<close>, lines 694 to 719, with the node queue the node is added
  to.
\<close>

definition currentNodeToQueue ::
  "Collaborators \<Rightarrow> HighsSearch \<Rightarrow> OpenNode list \<Rightarrow> (HighsSearch \<times> OpenNode list) option" where
  "currentNodeToQueue env s nodequeue =
     (if nodestack s = [] then None
      else
        let prune0 = (lower_bound (last (nodestack s)) > getCutoffBound s);
            s1 = (if \<not> prune0 then logCall ClearChangedCols (propagate env s) else s);
            prune = (if \<not> prune0 then infeasible (localdom s1) else prune0);
            s2 = (if \<not> prune0 \<and> prune then logCall ConflictAnalysis s1 else s1);
            nodequeue' =
              (if \<not> prune
               then nodequeue @
                      [\<lparr>open_domchgstack = fst (getReducedDomainChangeStack (localdom s2)),
                        open_branchings = snd (getReducedDomainChangeStack (localdom s2)),
                        open_lower_bound = lower_bound (last (nodestack s2)),
                        open_estimate = estimate (last (nodestack s2)),
                        open_depth = getCurrentDepth s2\<rparr>]
               else nodequeue);
            s3 = (if \<not> prune then s2
                  else s2\<lparr>treeweight :=
                          roundDouble env (treeweight s2 + pow_half (getCurrentDepth s2 - 1))\<rparr>);
            s4 = setCurrnode (\<lambda>n. n\<lparr>opensubtrees := 0\<rparr>) s3
        in case backtrack env True s4 of
             None \<Rightarrow> None
           | Some (found, s5) \<Rightarrow>
               let s6 = logCall FlushDomain s5
               in Some (if nodestack s6 \<noteq> [] then recoverNodeBasis s6 else s6, nodequeue'))"

subsection \<open>The constructor, and a small instance\<close>

text \<open>
  The constructor \<^verbatim>\<open>HighsSearch::HighsSearch\<close>, lines 22 to 40, on the MIP solver's
  data and the pseudocost store it is given.
\<close>

definition newHighsSearch ::
  "Collaborators \<Rightarrow> HighsMipSolverData \<Rightarrow> HighsPseudocost \<Rightarrow> HighsSearch" where
  "newHighsSearch env mipdata' pseudocost' =
     \<lparr>nodestack = [],
      localdom = setDomainChangeStack [] [],
      pseudocost = pseudocost',
      mipdata = mipdata',
      nnodes = 0,
      treeweight = 0,
      depthoffset = 0,
      lpiterations = 0,
      heurlpiterations = 0,
      sblpiterations = 0,
      upper_limit = kHighsInf env,
      inheuristic = False,
      subrootsol = [],
      calls = []\<rparr>"

text \<open>
  An instance the theorems below are applied to: collaborators that find nothing
  (no implied bound change, no infeasibility, every score zero), with
  \<^verbatim>\<open>kHighsInf\<close> standing at \<open>10^30\<close> and two binary columns \<open>0\<close> and \<open>1\<close>, both
  tracked by the symmetry detector. The instance is used at inputs where every
  floating-point operation is exact (small integers, halves and quarters), so its
  rounding is the identity.
\<close>

definition quiet :: Collaborators where
  "quiet =
     \<lparr>kHighsInf = 10 ^ 30,
      roundDouble = (\<lambda>x. x),
      isContinuous = (\<lambda>col. False),
      isGlobalBinary = (\<lambda>col. col = 0 \<or> col = 1),
      isBinary = (\<lambda>col. col = 0 \<or> col = 1),
      columnPosition = (\<lambda>col. if col = 0 \<or> col = 1 then col else - 1),
      numPerms = 0,
      isStabilized = (\<lambda>orbits col. col \<in> set (stabilizedCols orbits)),
      changeInfeasible = (\<lambda>s chg. False),
      propagation = (\<lambda>s. ([], False)),
      orbitalFixings = (\<lambda>orbits s. (0, [], False)),
      stabilizerOrbitsOf = (\<lambda>s. \<lparr>orbitCols = [], stabilizedCols = []\<rparr>),
      getScoreUp = (\<lambda>ps col x. 0),
      getScoreDown = (\<lambda>ps col x. 0),
      lpResolve = (\<lambda>s.
        \<lparr>lpScaledOptimal = False, lpUnscaledPrimalFeasible = False,
         lpUnscaledDualFeasible = False, lpInfeasible = True, lpObjectiveBound = False,
         lpObjective = 0, lpFractionalIntegers = [], lpBestEstimate = 0,
         lpStoredBasis = None, lpNumIterations = 0, lpImplied = [],
         lpDomainInfeasible = False\<rparr>),
      redCostFixings = (\<lambda>s. ([], False)),
      changedColsEmpty = (\<lambda>s. True),
      incumbentLimit = (\<lambda>s obj. obj),
      computeLPDegneracy = (\<lambda>s. 1),
      basisFitsLp = (\<lambda>s b. True)\<rparr>"

definition fresh :: HighsSearch where
  "fresh =
     newHighsSearch quiet
       \<lparr>num_nodes = 0, pruned_treeweight = 0, total_lp_iterations = 0,
        heuristic_lp_iterations = 0, sb_lp_iterations = 0, mip_upper_limit = 10 ^ 30,
        feastol = 1 / 10 ^ 6, epsilon = 1 / 10 ^ 9, globalOrbits = None\<rparr>
       \<lparr>minreliable = 8, degeneracyFactor = 1, observed = []\<rparr>"

subsection \<open>Statements of the spec that the theorems compare with the code\<close>

text \<open>
  The spec's words for \<^verbatim>\<open>install_node\<close>: the global orbits remain valid when every
  branching domain change on a symmetry-tracked column is either setting a binary
  variable to 1 via a lower-bound branch, or not on a binary symmetric column.
\<close>

definition spec_globalOrbitsValid ::
  "Collaborators \<Rightarrow> HighsDomainChange list \<Rightarrow> nat list \<Rightarrow> bool" where
  "spec_globalOrbitsValid env stack branchpos =
     list_all
       (\<lambda>i. columnPosition env (column (stack ! i)) = - 1
            \<or> (isBinary env (column (stack ! i))
                 \<and> boundtype (stack ! i) = kLower \<and> boundval (stack ! i) = 1)
            \<or> \<not> isBinary env (column (stack ! i)))
       branchpos"

text \<open>
  The spec's words for the inheritance of the stabilizer orbits: the branching change
  of the parent frame is valid for its orbits when the parent has no stabilizer (or
  its set of orbit columns is empty), or the branched column is stabilized, or the
  branch is a down branch (an upper-bound change) on a globally binary column. The
  child inherits the parent's orbits if and only if that holds; otherwise its orbit
  pointer is null.
\<close>

definition spec_orbitsValid ::
  "Collaborators \<Rightarrow> StabilizerOrbits option \<Rightarrow> HighsDomainChange \<Rightarrow> bool" where
  "spec_orbitsValid env parentOrbits branchChg =
     ((case parentOrbits of
         None \<Rightarrow> True
       | Some orbits \<Rightarrow>
           orbitCols orbits = [] \<or> isStabilized env orbits (column branchChg))
      \<or> (boundtype branchChg = kUpper \<and> isGlobalBinary env (column branchChg)))"

text \<open>
  \<open>before\<close> is the parent frame before the operation, \<open>branchChg\<close> the branching
  change of the operation, \<open>parent\<close> and \<open>child\<close> are the parent frame and the new
  frame after it: the parent keeps its orbits and holds the branching change, and
  the child has the orbits the parent had if the change is valid for them, and a
  null pointer otherwise.
\<close>

definition childInheritsOrbits ::
  "Collaborators \<Rightarrow> NodeData \<Rightarrow> HighsDomainChange \<Rightarrow> NodeData \<Rightarrow> NodeData \<Rightarrow> bool" where
  "childInheritsOrbits env before branchChg parent child =
     (stabilizerOrbits parent = stabilizerOrbits before
      \<and> branchingdecision parent = branchChg
      \<and> stabilizerOrbits child
          = (if spec_orbitsValid env (stabilizerOrbits before) branchChg
             then stabilizerOrbits before else None))"

text \<open>
  The last two frames of the node stack \<open>stack\<close> are a parent and the child it
  opened, above the frames \<open>below\<close>.
\<close>

definition opensChild ::
  "Collaborators \<Rightarrow> NodeData list \<Rightarrow> NodeData \<Rightarrow> HighsDomainChange \<Rightarrow> NodeData list \<Rightarrow> bool" where
  "opensChild env below before branchChg stack =
     (length stack = length below + 2
      \<and> take (length below) stack = below
      \<and> childInheritsOrbits env before branchChg (stack ! length below) (last stack))"

text \<open>
  A root frame that carries a stabilizer in which no column is stabilized: the
  state after \<^verbatim>\<open>createNewNode\<close> and an evaluation that has computed the orbits.
\<close>

definition rooted :: HighsSearch where
  "rooted =
     setCurrnode
       (\<lambda>n. n\<lparr>stabilizerOrbits := Some \<lparr>orbitCols = [0, 1], stabilizedCols = []\<rparr>,
              lower_bound := 0, estimate := 0\<rparr>)
       (createNewNode quiet fresh)"

text \<open>
  The spec's words for the flip of a branching decision: an up branch (a lower bound
  \<open>v\<close>) becomes the upper bound \<open>\<lfloor>v - 0.5\<rfloor>\<close>, a down branch (an upper bound \<open>v\<close>)
  becomes the lower bound \<open>\<lceil>v + 0.5\<rceil>\<close>, on the same column; and where the bound
  before the flip equalled \<open>branching_point\<close> (a fallback branch),
  \<open>branching_point\<close> is set to the flipped bound. The arithmetic of \<open>v - 0.5\<close> and
  \<open>v + 0.5\<close> is the parameter \<open>rd\<close>: the spec's words are the statement with the
  exact difference and sum, \<open>rd = (\<lambda>x. x)\<close>.
\<close>

definition spec_flipped :: "(real \<Rightarrow> real) \<Rightarrow> NodeData \<Rightarrow> NodeData \<Rightarrow> bool" where
  "spec_flipped rd old new =
     (column (branchingdecision new) = column (branchingdecision old)
      \<and> (case boundtype (branchingdecision old) of
            kLower \<Rightarrow>
              boundtype (branchingdecision new) = kUpper
              \<and> boundval (branchingdecision new)
                  = of_int \<lfloor>rd (boundval (branchingdecision old) - 1 / 2)\<rfloor>
          | kUpper \<Rightarrow>
              boundtype (branchingdecision new) = kLower
              \<and> boundval (branchingdecision new)
                  = of_int \<lceil>rd (boundval (branchingdecision old) + 1 / 2)\<rceil>)
      \<and> (if boundval (branchingdecision old) = branching_point old
          then branching_point new = boundval (branchingdecision new)
          else branching_point new = branching_point old))"

text \<open>
  The spec's words for the strong-branching probe whose trial propagates to
  infeasibility: the driver records a cutoff observation for the column and the
  direction of the trial (\<open>upbranch\<close>), backtracks the trial change, commits the
  opposite branch \<open>opposite\<close> as a new child frame, sets the branching frame's
  \<open>skip_depth_count\<close> to 1 and closes it, and decrements the depth offset. \<open>s\<close> is
  the state before the trial, \<open>s'\<close> the state returned.
\<close>

definition spec_committed ::
  "HighsSearch \<Rightarrow> HighsSearch \<Rightarrow> real \<Rightarrow> HighsDomainChange \<Rightarrow> bool \<Rightarrow> bool" where
  "spec_committed s s' fracval opposite upbranch =
     (observed (pseudocost s')
        = observed (pseudocost s) @ [AddCutoffObservation (column opposite) upbranch]
      \<and> domchgstack (localdom s') = domchgstack (localdom s) @ [opposite]
      \<and> branchPos (localdom s') = branchPos (localdom s) @ [length (domchgstack (localdom s))]
      \<and> length (nodestack s') = length (nodestack s) + 1
      \<and> butlast (butlast (nodestack s')) = butlast (nodestack s)
      \<and> last (butlast (nodestack s'))
          = (last (nodestack s))
              \<lparr>opensubtrees := 0, skipDepthCount := 1,
               branching_point := fracval, branchingdecision := opposite\<rparr>
      \<and> opensubtrees (last (nodestack s')) = 2
      \<and> domgchgStackPos (last (nodestack s')) = int (length (domchgstack (localdom s)))
      \<and> lower_bound (last (nodestack s')) = lower_bound (last (nodestack s))
      \<and> estimate (last (nodestack s')) = estimate (last (nodestack s))
      \<and> depthoffset s' = depthoffset s - 1)"

text \<open>
  The spec's words for the parking of \<^verbatim>\<open>backtrack_plunge\<close>: among the still-open
  ancestor frames, some ancestor's inactive-direction score exceeds its
  active-direction score by more than the sibling's score plus \<open>feastol\<close>. \<open>s\<close> is
  the state in which the last frame is about to be flipped.
\<close>

definition spec_parks :: "Collaborators \<Rightarrow> HighsSearch \<Rightarrow> bool" where
  "spec_parks env s =
     list_ex
       (\<lambda>a. opensubtrees a \<noteq> 0
            \<and> plunge_ancestorGain env s a
                > roundDouble env
                    (plunge_nodeScore env s (last (nodestack s)) + feastol (mipdata s)))
       (butlast (nodestack s))"

text \<open>
  What the loop of lines 1522 to 1548 decides: only the nearest still-open ancestor
  (the first frame below the last one whose \<open>opensubtrees\<close> is not 0) is compared.
\<close>

definition nearestOpenAncestor :: "NodeData list \<Rightarrow> NodeData option" where
  "nearestOpenAncestor frames = find (\<lambda>a. opensubtrees a \<noteq> 0) (rev (butlast frames))"

definition nearest_parks :: "Collaborators \<Rightarrow> HighsSearch \<Rightarrow> bool" where
  "nearest_parks env s =
     (case nearestOpenAncestor (nodestack s) of
        None \<Rightarrow> False
      | Some a \<Rightarrow>
          plunge_ancestorGain env s a
            > roundDouble env
                (plunge_nodeScore env s (last (nodestack s)) + feastol (mipdata s)))"

definition isParked :: "PlungeFlipped option \<Rightarrow> bool" where
  "isParked r = (case r of Some (Parked s node) \<Rightarrow> True | _ \<Rightarrow> False)"

definition isPlungePruned :: "PlungeFlipped option \<Rightarrow> bool" where
  "isPlungePruned r = (case r of Some (PlungePruned s) \<Rightarrow> True | _ \<Rightarrow> False)"

text \<open>
  An instance for the backtracker: the root frame has branched downwards on column
  \<open>2\<close> (the upper bound \<open>3\<close> at the branching point \<open>7/2\<close>) and its child has been
  closed; in \<open>climbing\<close> it has branched upwards on the binary column \<open>0\<close> (the
  lower bound \<open>1\<close>) and its child has been closed; in \<open>decided\<close> the down branch
  on column \<open>0\<close> is stored in the root frame, as \<^verbatim>\<open>branch\<close> has it before it opens
  the child. \<open>conflicting\<close> are collaborators whose propagation finds every domain
  infeasible, as it does once a conflict learnt in the closed subtree excludes the
  frame. \<open>halfway\<close> are collaborators that round \<open>2^53 - 1/2\<close>, which is no double,
  to the double \<open>2^53\<close>, as the arithmetic of IEEE doubles does, and \<open>huge\<close> is a
  frame with the lower bound \<open>2^53\<close> for its branching decision, a fallback
  branch.
\<close>

definition unwinding :: HighsSearch where
  "unwinding =
     (case Option.bind (branchDownwards quiet 2 3 (7 / 2) rooted) cutoffNode of
        Some s \<Rightarrow> s
      | None \<Rightarrow> fresh)"

definition climbing :: HighsSearch where
  "climbing =
     (case Option.bind (branchUpwards quiet 0 1 (1 / 2) rooted) cutoffNode of
        Some s \<Rightarrow> s
      | None \<Rightarrow> fresh)"

definition decided :: HighsSearch where
  "decided =
     setCurrnode
       (\<lambda>n. n\<lparr>branching_point := 1 / 2,
              branchingdecision := \<lparr>boundval = 0, column = 0, boundtype = kUpper\<rparr>\<rparr>)
       rooted"

definition conflicting :: Collaborators where
  "conflicting = quiet\<lparr>propagation := (\<lambda>s. ([], True))\<rparr>"

definition halfway :: Collaborators where
  "halfway = quiet\<lparr>roundDouble := (\<lambda>x. if x = 2 ^ 53 - 1 / 2 then 2 ^ 53 else x)\<rparr>"

definition huge :: NodeData where
  "huge =
     (newNodeData quiet 0 0 None None)
       \<lparr>opensubtrees := 1, branching_point := 2 ^ 53,
        branchingdecision := \<lparr>boundval = 2 ^ 53, column = 2, boundtype = kLower\<rparr>\<rparr>"

text \<open>
  An instance for the plunge: the pseudocost store scores the down direction of
  column \<open>0\<close> at \<open>1/2\<close> and of column \<open>2\<close> at \<open>1/10\<close>, every other direction at
  \<open>0\<close>. \<open>plunging\<close> is the node stack after three up branches on the columns
  \<open>0\<close>, \<open>1\<close> and \<open>2\<close>, when the child of the third has been closed and popped:
  three frames, each with one subtree left.
\<close>

definition scored :: Collaborators where
  "scored = quiet\<lparr>getScoreDown :=
     (\<lambda>ps col x. if col = 0 then 1 / 2 else if col = 2 then 1 / 10 else 0)\<rparr>"

definition plunging :: "Unwound option" where
  "plunging =
     Option.bind (branchUpwards scored 0 1 (1 / 2) (createNewNode scored fresh))
       (\<lambda>s1. Option.bind (branchUpwards scored 1 1 (1 / 2) s1)
         (\<lambda>s2. Option.bind (branchUpwards scored 2 4 (7 / 2) s2)
           (\<lambda>s3. Option.bind (cutoffNode s3) (backtrack_pop scored))))"

definition plungingState :: HighsSearch where
  "plungingState = (case plunging of Some (Popped s) \<Rightarrow> s | _ \<Rightarrow> fresh)"

section \<open>The minimal C entry point (interfaces/MinimalAPI.cpp)\<close>

text \<open>
  \<^verbatim>\<open>callhighs\<close> receives the dimensions of an LP and eight raw pointers. A pointer
  is modelled by the memory that starts at it: \<open>cells b i\<close> is what a read at offset
  \<open>i\<close> yields, and \<open>extent b\<close> is the number of elements the caller allocated. A
  read at an offset \<open>i \<ge> extent b\<close> is a read past the end of the caller's buffer.
  The C type \<^verbatim>\<open>int\<close> is modelled by \<open>int\<close>, \<^verbatim>\<open>double\<close> by \<open>real\<close>.
  The members of \<^verbatim>\<open>HighsLp\<close> are written without their trailing underscore
  (\<open>rowUpper\<close> for \<^verbatim>\<open>rowUpper_\<close>), which a name cannot end with here.
\<close>

record 'a buffer =
  extent :: nat
  cells :: "nat \<Rightarrow> 'a"

record HighsLp =
  numCol :: int
  numRow :: int
  numInt :: int
  colCost :: "real list"
  colLower :: "real list"
  colUpper :: "real list"
  rowLower :: "real list"
  rowUpper :: "real list"
  Astart :: "int list"
  Aindex :: "int list"
  Avalue :: "real list"

datatype Argument =
  ColCost | ColLower | ColUpper | RowLower | RowUpper | AStart | AIndex | AValue

text \<open>
  \<^verbatim>\<open>v.assign(p, p + n)\<close>: the vector becomes the \<open>n\<close> elements read from
  \<open>p[0]\<close> to \<open>p[n - 1]\<close>. Beside the vector, the model returns the offsets that were
  read past the buffer's end.
\<close>

definition assign_range :: "'a buffer \<Rightarrow> nat \<Rightarrow> 'a list" where
  "assign_range b n = map (cells b) [0..<n]"

definition overrun :: "'a buffer \<Rightarrow> nat \<Rightarrow> nat list" where
  "overrun b n = filter (\<lambda>i. extent b \<le> i) [0..<n]"

record callhighs_result =
  built :: HighsLp
  overruns :: "(Argument \<times> nat) list"

text \<open>
  \<^verbatim>\<open>callhighs\<close>, lines 15 to 39: the LP handed to \<^verbatim>\<open>highs.initializeLp\<close>. A
  negative \<^verbatim>\<open>numcol\<close>, \<^verbatim>\<open>numrow\<close> or \<^verbatim>\<open>astart[numcol]\<close> makes
  \<^verbatim>\<open>resize\<close> throw (the size converts to a huge unsigned number), so no LP is built:
  the result is \<open>None\<close>. The \<^verbatim>\<open>resize\<close> calls of lines 21 to 29 are overwritten by
  the \<^verbatim>\<open>assign\<close> calls of lines 31 to 39, which fix each vector's final length.
\<close>

definition callhighs ::
  "int \<Rightarrow> int \<Rightarrow> real buffer \<Rightarrow> real buffer \<Rightarrow> real buffer \<Rightarrow> real buffer \<Rightarrow> real buffer
     \<Rightarrow> int buffer \<Rightarrow> int buffer \<Rightarrow> real buffer \<Rightarrow> callhighs_result option" where
  "callhighs numcol numrow colcost collower colupper rowlower rowupper astart aindex avalue =
     (if numcol < 0 \<or> numrow < 0 then None
      else
        let local_numNz = cells astart (nat numcol) in
        if local_numNz < 0 then None
        else
          Some \<lparr>built = \<lparr>
                  numCol = numcol,
                  numRow = numrow,
                  numInt = 0,
                  colCost = assign_range colcost (nat numcol),
                  colLower = assign_range collower (nat numcol),
                  colUpper = assign_range colupper (nat numcol),
                  rowLower = assign_range rowlower (nat numrow),
                  rowUpper = assign_range rowupper (nat numcol),
                  Astart = assign_range astart (nat (numcol + 1)),
                  Aindex = assign_range aindex (nat local_numNz),
                  Avalue = assign_range avalue (nat local_numNz)\<rparr>,
                overruns =
                  map (Pair ColCost) (overrun colcost (nat numcol)) @
                  map (Pair ColLower) (overrun collower (nat numcol)) @
                  map (Pair ColUpper) (overrun colupper (nat numcol)) @
                  map (Pair RowLower) (overrun rowlower (nat numrow)) @
                  map (Pair RowUpper) (overrun rowupper (nat numcol)) @
                  map (Pair AStart) (overrun astart (nat (numcol + 1))) @
                  map (Pair AIndex) (overrun aindex (nat local_numNz)) @
                  map (Pair AValue) (overrun avalue (nat local_numNz))\<rparr>)"

section \<open>Theorems\<close>


subsection \<open>The stack of the local domain\<close>

lemma fold_pushChange_False:
  "fold (pushChange False) chgs d =
     d\<lparr>domchgstack := domchgstack d @ chgs\<rparr>"
  by (induction chgs arbitrary: d) (simp_all add: pushChange_def)

lemma domchgstack_pushImplied [simp]:
  "domchgstack (pushImplied r d) = domchgstack d @ fst r"
  by (simp add: pushImplied_def fold_pushChange_False)

lemma branchPos_pushImplied [simp]: "branchPos (pushImplied r d) = branchPos d"
  by (simp add: pushImplied_def fold_pushChange_False)

lemma infeasible_pushImplied [simp]:
  "infeasible (pushImplied r d) = (infeasible d \<or> snd r)"
  by (simp add: pushImplied_def)

lemma localdom_logCall [simp]: "localdom (logCall c s) = localdom s"
  by (simp add: logCall_def)

lemma localdom_observe [simp]: "localdom (observe ob s) = localdom s"
  by (simp add: observe_def)

lemma localdom_setCurrnode [simp]: "localdom (setCurrnode f s) = localdom s"
  by (simp add: setCurrnode_def)

lemma domchgstack_changeBound [simp]:
  "domchgstack (localdom (changeBound env chg s)) = domchgstack (localdom s) @ [chg]"
  by (simp add: changeBound_def pushChange_def)

lemma branchPos_changeBound [simp]:
  "branchPos (localdom (changeBound env chg s))
     = branchPos (localdom s) @ [length (domchgstack (localdom s))]"
  by (simp add: changeBound_def pushChange_def)

lemma domchgstack_propagate:
  "domchgstack (localdom (propagate env s))
     = domchgstack (localdom s)
         @ (if infeasible (localdom s) then [] else fst (propagation env s))"
  by (simp add: propagate_def)

lemma branchPos_propagate [simp]:
  "branchPos (localdom (propagate env s)) = branchPos (localdom s)"
  by (simp add: propagate_def)

lemma domchgstack_orbitalFixing:
  "domchgstack (localdom (snd (orbitalFixing env orbits s)))
     = domchgstack (localdom s) @ fst (snd (orbitalFixings env orbits s))"
  by (simp add: orbitalFixing_def Let_def)

lemma branchPos_orbitalFixing [simp]:
  "branchPos (localdom (snd (orbitalFixing env orbits s))) = branchPos (localdom s)"
  by (simp add: orbitalFixing_def Let_def)

lemma nodestack_recoverNodeBasis [simp]: "nodestack (recoverNodeBasis s) = nodestack s"
  by (simp add: recoverNodeBasis_def)

lemma localdom_recoverNodeBasis [simp]: "localdom (recoverNodeBasis s) = localdom s"
  by (simp add: recoverNodeBasis_def)

lemma applyFlipped_stack:
  "\<exists>implied. domchgstack (localdom (snd (applyFlipped env pass s)))
     = domchgstack (localdom s) @ [branchingdecision (last (nodestack s))] @ implied"
  by (simp add: applyFlipped_def Let_def domchgstack_propagate domchgstack_orbitalFixing
      split: option.splits)

lemma branchPos_applyFlipped [simp]:
  "branchPos (localdom (snd (applyFlipped env pass s)))
     = branchPos (localdom s) @ [length (domchgstack (localdom s))]"
  by (simp add: applyFlipped_def Let_def split: option.splits)

subsection \<open>The small instance, evaluated\<close>

lemma rooted_nodestack:
  "nodestack rooted =
     [\<lparr>lower_bound = 0, estimate = 0, branching_point = 0, lp_objective = - (10 ^ 30),
       nodeBasis = None,
       stabilizerOrbits = Some \<lparr>orbitCols = [0, 1], stabilizedCols = []\<rparr>,
       branchingdecision = \<lparr>boundval = 0, column = - 1, boundtype = kLower\<rparr>,
       domgchgStackPos = 0, skipDepthCount = 0, opensubtrees = 2\<rparr>]"
  by (simp add: rooted_def setCurrnode_def createNewNode_def fresh_def newHighsSearch_def
      newNodeData_def quiet_def updateLast_def setDomainChangeStack_def)

lemma rooted_localdom:
  "localdom rooted = \<lparr>domchgstack = [], branchPos = [], infeasible = False\<rparr>"
  by (simp add: rooted_def setCurrnode_def createNewNode_def fresh_def newHighsSearch_def
      setDomainChangeStack_def)

lemma rooted_limits:
  "mip_upper_limit (mipdata rooted) = 10 ^ 30" "upper_limit rooted = 10 ^ 30"
  "depthoffset rooted = 0" "treeweight rooted = 0"
  by (simp_all add: rooted_def setCurrnode_def createNewNode_def fresh_def newHighsSearch_def
      quiet_def)

lemma quiet_simps:
  "kHighsInf quiet = 10 ^ 30" "isContinuous quiet col = False"
  "changeInfeasible quiet s chg = False" "propagation quiet s = ([], False)"
  "orbitalFixings quiet orbits s = (0, [], False)"
  "isStabilized quiet orbits col = (col \<in> set (stabilizedCols orbits))"
  "isGlobalBinary quiet col = (col = 0 \<or> col = 1)"
  "roundDouble quiet x = x"
  by (simp_all add: quiet_def)

lemma unwinding_nodestack:
  "nodestack unwinding =
     [\<lparr>lower_bound = 0, estimate = 0, branching_point = 7 / 2, lp_objective = - (10 ^ 30),
       nodeBasis = None,
       stabilizerOrbits = Some \<lparr>orbitCols = [0, 1], stabilizedCols = []\<rparr>,
       branchingdecision = \<lparr>boundval = 3, column = 2, boundtype = kUpper\<rparr>,
       domgchgStackPos = 0, skipDepthCount = 0, opensubtrees = 1\<rparr>,
      \<lparr>lower_bound = 0, estimate = 0, branching_point = 0, lp_objective = - (10 ^ 30),
       nodeBasis = None,
       stabilizerOrbits = None,
       branchingdecision = \<lparr>boundval = 0, column = - 1, boundtype = kLower\<rparr>,
       domgchgStackPos = 0, skipDepthCount = 0, opensubtrees = 0\<rparr>]"
  by (simp add: unwinding_def branchDownwards_def cutoffNode_def changeBound_def pushChange_def
      orbitsValidInChildNode_def newNodeData_def updateLast_def Let_def
      rooted_nodestack rooted_localdom quiet_simps)

lemma unwinding_localdom:
  "localdom unwinding =
     \<lparr>domchgstack = [\<lparr>boundval = 3, column = 2, boundtype = kUpper\<rparr>], branchPos = [0],
      infeasible = False\<rparr>"
  by (simp add: unwinding_def branchDownwards_def cutoffNode_def changeBound_def pushChange_def
      orbitsValidInChildNode_def newNodeData_def updateLast_def Let_def
      rooted_nodestack rooted_localdom quiet_simps)

lemma unwinding_limits:
  "mip_upper_limit (mipdata unwinding) = 10 ^ 30" "upper_limit unwinding = 10 ^ 30"
  "depthoffset unwinding = 0" "treeweight unwinding = 0"
  by (simp_all add: unwinding_def branchDownwards_def cutoffNode_def changeBound_def
      Let_def rooted_nodestack rooted_limits quiet_simps)

lemma conflicting_simps:
  "kHighsInf conflicting = 10 ^ 30" "isContinuous conflicting col = False"
  "changeInfeasible conflicting s chg = False" "propagation conflicting s = ([], True)"
  "orbitalFixings conflicting orbits s = (0, [], False)"
  "isStabilized conflicting orbits col = (col \<in> set (stabilizedCols orbits))"
  "isGlobalBinary conflicting col = (col = 0 \<or> col = 1)"
  "roundDouble conflicting x = x"
  by (simp_all add: conflicting_def quiet_def)


subsection \<open>The frames the backtracker leaves untouched\<close>

lemma take_updateLast: "k < length xs \<Longrightarrow> take k (updateLast f xs) = take k xs"
  by (cases xs rule: rev_cases) (simp_all add: updateLast_def)

lemma backtrack_pop_nodestack:
  "backtrack_pop env s = Some (Popped s1) \<Longrightarrow>
     nodestack s1 = butlast (nodestack s)
     \<or> (nodestack s1 = updateLast (\<lambda>n. n\<lparr>opensubtrees := 0\<rparr>) (butlast (nodestack s)))"
  by (auto simp: backtrack_pop_def Let_def split: if_splits option.splits)

lemma backtrack_flip_opensubtrees:
  "backtrack_flip env t = Some r \<Longrightarrow> opensubtrees (last (nodestack t)) = 1"
  by (auto simp: backtrack_flip_def split: if_splits)

lemma backtrack_loop_reaches:
  "backtrack_loop env s = Some (True, s') \<Longrightarrow>
     \<exists>t. nodestack t \<noteq> [] \<and> backtrack_flip env t = Some (Descend s')
         \<and> length (nodestack t) \<le> length (nodestack s)
         \<and> take (length (nodestack t)) (nodestack s) = nodestack t"
proof (induction env s rule: backtrack_loop.induct)
  case (1 env s)
  from "1.prems" have ne: "nodestack s \<noteq> []"
    by (subst (asm) backtrack_loop.simps) (auto split: if_splits)
  show ?case
  proof (cases "opensubtrees (last (nodestack s)) = 0")
    case True
    with "1.prems" ne obtain s1 where pop: "backtrack_pop env s = Some (Popped s1)"
      and loop: "backtrack_loop env s1 = Some (True, s')"
      by (subst (asm) backtrack_loop.simps)
         (auto split: if_splits option.splits Unwound.splits)
    from "1.IH"(1) [OF ne True pop refl loop] obtain t where
      t: "nodestack t \<noteq> []" "backtrack_flip env t = Some (Descend s')"
         "length (nodestack t) \<le> length (nodestack s1)"
         "take (length (nodestack t)) (nodestack s1) = nodestack t"
      by blast
    have os: "opensubtrees (last (nodestack t)) = 1"
      using t(2) by (rule backtrack_flip_opensubtrees)
    have len: "length (nodestack s1) = length (nodestack s) - 1" and ne1: "nodestack s1 \<noteq> []"
      using backtrack_pop_length [OF pop] by simp_all
    from backtrack_pop_nodestack [OF pop]
    have "take (length (nodestack t)) (nodestack s) = nodestack t"
    proof
      assume eq: "nodestack s1 = butlast (nodestack s)"
      show ?thesis
      proof (cases "length (nodestack t) < length (nodestack s)")
        case True
        then show ?thesis using t(4) eq by (simp add: take_butlast)
      next
        case False
        then show ?thesis using t(3) len ne by (cases "nodestack s") auto
      qed
    next
      assume eq: "nodestack s1 = updateLast (\<lambda>n. n\<lparr>opensubtrees := 0\<rparr>) (butlast (nodestack s))"
      have "length (nodestack t) \<noteq> length (nodestack s1)"
      proof
        assume "length (nodestack t) = length (nodestack s1)"
        with t(4) have "nodestack t = nodestack s1" by simp
        with os eq ne1 show False by (simp add: updateLast_def split: if_splits)
      qed
      with t(3) have lt: "length (nodestack t) < length (butlast (nodestack s))"
        using len by simp
      from t(4) have "take (length (nodestack t)) (butlast (nodestack s)) = nodestack t"
        unfolding eq by (simp add: take_updateLast [OF lt])
      moreover have "length (nodestack t) < length (nodestack s)" using lt by simp
      ultimately show ?thesis by (simp add: take_butlast)
    qed
    with t len show ?thesis by (intro exI [of _ t]) simp
  next
    case False
    show ?thesis
    proof (cases "backtrack_flip env s")
      case None
      with "1.prems" ne False show ?thesis
        by (subst (asm) backtrack_loop.simps) simp
    next
      case (Some r)
      show ?thesis
      proof (cases r)
        case (Pruned s1)
        with Some "1.prems" ne False have loop: "backtrack_loop env s1 = Some (True, s')"
          by (subst (asm) backtrack_loop.simps) simp
        from "1.IH"(2) [OF ne False Some [unfolded Pruned] refl loop] obtain t where
          t: "nodestack t \<noteq> []" "backtrack_flip env t = Some (Descend s')"
             "length (nodestack t) \<le> length (nodestack s1)"
             "take (length (nodestack t)) (nodestack s1) = nodestack t"
          by blast
        have os: "opensubtrees (last (nodestack t)) = 1"
          using t(2) by (rule backtrack_flip_opensubtrees)
        have eq: "nodestack s1 = butlast (nodestack s) @ [flipBranchingDecision env (last (nodestack s))]"
          using backtrack_flip_Pruned [OF Some [unfolded Pruned] ne] .
        have "length (nodestack t) \<noteq> length (nodestack s1)"
        proof
          assume "length (nodestack t) = length (nodestack s1)"
          with t(4) have "nodestack t = nodestack s1" by simp
          with os eq show False by simp
        qed
        with t(3) eq have lt: "length (nodestack t) \<le> length (butlast (nodestack s))"
          by simp
        with t(4) eq have "take (length (nodestack t)) (butlast (nodestack s)) = nodestack t"
          by simp
        moreover have "length (nodestack t) < length (nodestack s)" using lt ne
          by (simp add: less_eq_iff_succ_less length_greater_0_conv [symmetric] del: length_greater_0_conv)
        ultimately have "take (length (nodestack t)) (nodestack s) = nodestack t"
          by (simp add: take_butlast)
        with t lt show ?thesis by (intro exI [of _ t]) simp
      next
        case (Descend s1)
        with Some "1.prems" ne False have "s1 = s'"
          by (subst (asm) backtrack_loop.simps) simp
        with Some Descend ne show ?thesis by (intro exI [of _ s]) simp
      qed
    qed
  qed
qed


text \<open>
  A frame that is open when a loop of the backtracker ends has not been touched by
  the rounds before: a round pops the last frame, or closes it.
\<close>

lemma prefix_step:
  fixes ts xs' xs :: "NodeData list"
  assumes t: "take (length ts) xs' = ts" and tl: "length ts \<le> length xs'"
    and tn: "ts \<noteq> []" and op: "opensubtrees (last ts) \<noteq> 0"
    and b: "butlast xs' = take (length xs' - 1) xs" and l: "length xs' \<le> length xs"
    and c: "xs' = take (length xs') xs \<or> opensubtrees (last xs') = 0"
  shows "take (length ts) xs = ts \<and> length ts \<le> length xs"
proof -
  have "take (length ts) xs = ts"
    using c
  proof
    assume e: "xs' = take (length xs') xs"
    have "take (length ts) xs = take (length ts) (take (length xs') xs)"
      using tl by (simp add: min_def)
    also have "\<dots> = take (length ts) xs'" using e by simp
    finally show ?thesis using t by simp
  next
    assume z: "opensubtrees (last xs') = 0"
    have "length ts \<noteq> length xs'"
    proof
      assume "length ts = length xs'"
      with t have "ts = xs'" by simp
      with op z show False by simp
    qed
    with tl have lt: "length ts < length xs'" by simp
    then have le: "length ts \<le> length xs' - 1" by simp
    have "take (length ts) xs' = take (length ts) (butlast xs')"
      using lt by (simp add: take_butlast)
    also have "\<dots> = take (length ts) (take (length xs' - 1) xs)" by (simp only: b)
    also have "\<dots> = take (length ts) xs" using le by (simp add: min_def)
    finally show ?thesis using t by simp
  qed
  then show ?thesis using tl l by simp
qed

lemma backtrack_pop_prefix:
  assumes "backtrack_pop env s = Some (Popped s1)"
  shows "butlast (nodestack s1) = take (length (nodestack s1) - 1) (nodestack s)"
    and "length (nodestack s1) \<le> length (nodestack s)"
    and "nodestack s1 = take (length (nodestack s1)) (nodestack s)
         \<or> opensubtrees (last (nodestack s1)) = 0"
proof -
  have len: "length (nodestack s1) = length (nodestack s) - 1" and ne1: "nodestack s1 \<noteq> []"
    using backtrack_pop_length [OF assms] by simp_all
  show "length (nodestack s1) \<le> length (nodestack s)" using len by simp
  have bb: "butlast (butlast (nodestack s)) = take (length (nodestack s) - 1 - 1) (nodestack s)"
    by (simp add: butlast_conv_take)
  from backtrack_pop_nodestack [OF assms]
  show "butlast (nodestack s1) = take (length (nodestack s1) - 1) (nodestack s)"
    using bb len by auto
  from backtrack_pop_nodestack [OF assms]
  show "nodestack s1 = take (length (nodestack s1)) (nodestack s)
         \<or> opensubtrees (last (nodestack s1)) = 0"
  proof
    assume "nodestack s1 = butlast (nodestack s)"
    then show ?thesis using len by (simp add: butlast_conv_take)
  next
    assume e: "nodestack s1 = updateLast (\<lambda>n. n\<lparr>opensubtrees := 0\<rparr>) (butlast (nodestack s))"
    with ne1 have "butlast (nodestack s) \<noteq> []" by auto
    then show ?thesis by (simp add: e)
  qed
qed

lemma flipped_prefix:
  assumes "xs \<noteq> []" and "xs' = butlast xs @ [flipBranchingDecision env (last xs)]"
  shows "butlast xs' = take (length xs' - 1) xs"
    and "length xs' \<le> length xs"
    and "xs' = take (length xs') xs \<or> opensubtrees (last xs') = 0"
  using assms by (simp_all add: butlast_conv_take)

lemma backtrackPlunge_flip_opensubtrees:
  "backtrackPlunge_flip env t = Some r \<Longrightarrow> opensubtrees (last (nodestack t)) = 1"
  by (auto simp: backtrackPlunge_flip_def split: if_splits)

lemma backtrackPlunge_loop_reaches:
  "backtrackPlunge_loop env s q = Some (True, s', q') \<Longrightarrow>
     \<exists>t. nodestack t \<noteq> [] \<and> backtrackPlunge_flip env t = Some (PlungeDescend s')
         \<and> length (nodestack t) \<le> length (nodestack s)
         \<and> take (length (nodestack t)) (nodestack s) = nodestack t"
proof (induction env s q rule: backtrackPlunge_loop.induct)
  case (1 env s q)
  from "1.prems" have ne: "nodestack s \<noteq> []"
    by (subst (asm) backtrackPlunge_loop.simps) (auto split: if_splits)
  show ?case
  proof (cases "opensubtrees (last (nodestack s)) = 0")
    case True
    with "1.prems" ne obtain s1 where pop: "backtrack_pop env s = Some (Popped s1)"
      and loop: "backtrackPlunge_loop env s1 q = Some (True, s', q')"
      by (subst (asm) backtrackPlunge_loop.simps)
         (auto split: if_splits option.splits Unwound.splits)
    from "1.IH"(1) [OF ne True pop refl loop] obtain t where
      t: "nodestack t \<noteq> []" "backtrackPlunge_flip env t = Some (PlungeDescend s')"
         "length (nodestack t) \<le> length (nodestack s1)"
         "take (length (nodestack t)) (nodestack s1) = nodestack t"
      by blast
    have os: "opensubtrees (last (nodestack t)) \<noteq> 0"
      using backtrackPlunge_flip_opensubtrees [OF t(2)] by simp
    from prefix_step [OF t(4) t(3) t(1) os backtrack_pop_prefix [OF pop]] t(1,2)
    show ?thesis by (intro exI [of _ t]) simp
  next
    case False
    show ?thesis
    proof (cases "backtrackPlunge_flip env s")
      case None
      with "1.prems" ne False show ?thesis
        by (subst (asm) backtrackPlunge_loop.simps) simp
    next
      case (Some r)
      show ?thesis
      proof (cases r)
        case (PlungePruned s1)
        with Some "1.prems" ne False
        have loop: "backtrackPlunge_loop env s1 q = Some (True, s', q')"
          by (subst (asm) backtrackPlunge_loop.simps) simp
        from "1.IH"(2) [OF ne False Some [unfolded PlungePruned] refl loop] obtain t where
          t: "nodestack t \<noteq> []" "backtrackPlunge_flip env t = Some (PlungeDescend s')"
             "length (nodestack t) \<le> length (nodestack s1)"
             "take (length (nodestack t)) (nodestack s1) = nodestack t"
          by blast
        have os: "opensubtrees (last (nodestack t)) \<noteq> 0"
          using backtrackPlunge_flip_opensubtrees [OF t(2)] by simp
        have eq: "nodestack s1
                    = butlast (nodestack s) @ [flipBranchingDecision env (last (nodestack s))]"
          using backtrackPlunge_flip_continue [OF Some ne, of s1] PlungePruned by simp
        from prefix_step [OF t(4) t(3) t(1) os flipped_prefix [OF ne eq]] t(1,2)
        show ?thesis by (intro exI [of _ t]) simp
      next
        case (Parked s1 node)
        with Some "1.prems" ne False
        have loop: "backtrackPlunge_loop env s1 (q @ [node]) = Some (True, s', q')"
          by (subst (asm) backtrackPlunge_loop.simps) simp
        from "1.IH"(3) [OF ne False Some [unfolded Parked] refl loop] obtain t where
          t: "nodestack t \<noteq> []" "backtrackPlunge_flip env t = Some (PlungeDescend s')"
             "length (nodestack t) \<le> length (nodestack s1)"
             "take (length (nodestack t)) (nodestack s1) = nodestack t"
          by blast
        have os: "opensubtrees (last (nodestack t)) \<noteq> 0"
          using backtrackPlunge_flip_opensubtrees [OF t(2)] by simp
        have eq: "nodestack s1
                    = butlast (nodestack s) @ [flipBranchingDecision env (last (nodestack s))]"
          using backtrackPlunge_flip_continue [OF Some ne, of s1 node] Parked by simp
        from prefix_step [OF t(4) t(3) t(1) os flipped_prefix [OF ne eq]] t(1,2)
        show ?thesis by (intro exI [of _ t]) simp
      next
        case (PlungeDescend s1)
        with Some "1.prems" ne False have "s1 = s'"
          by (subst (asm) backtrackPlunge_loop.simps) simp
        with Some PlungeDescend ne show ?thesis by (intro exI [of _ s]) simp
      qed
    qed
  qed
qed


lemma backtrackUntilDepth_loop_reaches:
  "backtrackUntilDepth_loop targetDepth s = Some (Popped s1) \<Longrightarrow>
     opensubtrees (last (nodestack s1)) \<noteq> 0 \<Longrightarrow>
     nodestack s1 \<noteq> []
     \<and> length (nodestack s1) \<le> length (nodestack s)
     \<and> take (length (nodestack s1)) (nodestack s) = nodestack s1"
proof (induction targetDepth s rule: backtrackUntilDepth_loop.induct)
  case (1 targetDepth s)
  from "1.prems" have ne: "nodestack s \<noteq> []"
    by (subst (asm) backtrackUntilDepth_loop.simps) (auto split: if_splits)
  show ?case
  proof (cases "opensubtrees (last (nodestack s)) = 0")
    case False
    with "1.prems" ne have "s1 = s"
      by (subst (asm) backtrackUntilDepth_loop.simps) simp
    with ne show ?thesis by simp
  next
    case True
    define p where "p = s\<lparr>depthoffset := depthoffset s + int (skipDepthCount (last (nodestack s))),
                          nodestack := butlast (nodestack s)\<rparr>"
    define s2 where "s2 = snd (backtrackDomain p)"
    define s3 where "s3 = (if getCurrentDepth s2 \<ge> targetDepth
                    then setCurrnode (\<lambda>n. n\<lparr>opensubtrees := 0\<rparr>) s2 else s2)"
    have n2: "nodestack s2 = butlast (nodestack s)"
      by (simp add: s2_def p_def)
    have unfolded: "backtrackUntilDepth_loop targetDepth s
        = (if nodestack s2 = [] then Some (Emptied (logCall FlushDomain s2))
           else if \<not> backtrackedBranching (fst (backtrackDomain p)) (last (nodestack s2))
           then None
           else backtrackUntilDepth_loop targetDepth s3)"
      using ne True
      by (subst backtrackUntilDepth_loop.simps) (simp add: Let_def p_def s2_def s3_def)
    from "1.prems"(1) have ne2: "nodestack s2 \<noteq> []"
      and bb: "backtrackedBranching (fst (backtrackDomain p)) (last (nodestack s2))"
      and loop: "backtrackUntilDepth_loop targetDepth s3 = Some (Popped s1)"
      unfolding unfolded by (simp_all split: if_splits)
    have ih: "nodestack s1 \<noteq> []
       \<and> length (nodestack s1) \<le> length (nodestack s3)
       \<and> take (length (nodestack s1)) (nodestack s3) = nodestack s1"
    proof -
      have nbb: "\<not> \<not> backtrackedBranching (fst (backtrackDomain p)) (last (nodestack s2))"
        using bb by simp
      show ?thesis
        using "1.IH" [OF ne True p_def refl s2_def ne2 nbb loop [unfolded s3_def] "1.prems"(2)]
        by (simp add: s3_def)
    qed
    have bb2: "butlast (butlast (nodestack s)) = take (length (nodestack s) - 1 - 1) (nodestack s)"
      by (simp add: butlast_conv_take)
    have b: "butlast (nodestack s3) = take (length (nodestack s3) - 1) (nodestack s)"
      by (simp add: s3_def n2 bb2)
    have l: "length (nodestack s3) \<le> length (nodestack s)"
      by (simp add: s3_def n2)
    have c: "nodestack s3 = take (length (nodestack s3)) (nodestack s)
             \<or> opensubtrees (last (nodestack s3)) = 0"
    proof (cases "getCurrentDepth s2 \<ge> targetDepth")
      case True
      then show ?thesis using ne2 by (simp add: s3_def)
    next
      case False
      then have "nodestack s3 = butlast (nodestack s)" by (simp add: s3_def n2)
      then show ?thesis by (simp add: butlast_conv_take)
    qed
    from ih prefix_step [OF _ _ _ "1.prems"(2) b l c]
    show ?thesis by simp
  qed
qed


subsection \<open>The strong-branching budget of branch\<close>


lemma pseudocost_setMinReliable [simp]:
  "minreliable (pseudocost (setMinReliable n s)) = n"
  by (simp add: setMinReliable_def)

lemma pseudocost_setDegeneracyFactor [simp]:
  "minreliable (pseudocost (setDegeneracyFactor f s)) = minreliable (pseudocost s)"
  by (simp add: setDegeneracyFactor_def)





subsection \<open>The global orbits of an installed node\<close>

lemma globalSymmetriesValid_iff:
  "globalSymmetriesValid env stack branchpos \<longleftrightarrow>
     (\<forall>i \<in> set branchpos.
        columnPosition env (column (stack ! i)) \<noteq> - 1 \<longrightarrow>
          isBinary env (column (stack ! i))
          \<and> \<not> (boundtype (stack ! i) = kLower \<and> boundval (stack ! i) = 1))"
  by (induction branchpos) (auto simp: Let_def)

lemma installNode_frame:
  "last (nodestack (installNode env node s)) =
     newNodeData env (open_lower_bound node) (open_estimate node) None
       (if globalOrbits (mipdata s) \<noteq> None
           \<longrightarrow> globalSymmetriesValid env
                 (domchgstack (setDomainChangeStack (open_domchgstack node) (open_branchings node)))
                 (branchPos (setDomainChangeStack (open_domchgstack node) (open_branchings node)))
        then globalOrbits (mipdata s) else None)"
  by (simp add: installNode_def Let_def)

lemma installNode_localdom:
  "localdom (installNode env node s) =
     setDomainChangeStack (open_domchgstack node) (open_branchings node)"
  by (simp add: installNode_def Let_def)

text \<open>
  The claim as the spec words it fails: a node whose single branching sets the
  binary, symmetry-tracked column \<open>0\<close> to 1 by a lower bound satisfies the spec's
  condition, and \<^verbatim>\<open>installNode\<close> seats its frame with a null orbit pointer.
\<close>

theorem installNode_spec_orbits_counterexample:
  "globalOrbits (mipdata (fresh\<lparr>mipdata := (mipdata fresh)
       \<lparr>globalOrbits := Some \<lparr>orbitCols = [0, 1], stabilizedCols = []\<rparr>\<rparr>\<rparr>)) \<noteq> None
   \<and> spec_globalOrbitsValid quiet [\<lparr>boundval = 1, column = 0, boundtype = kLower\<rparr>] [0]
   \<and> localdom (installNode quiet
        \<lparr>open_domchgstack = [\<lparr>boundval = 1, column = 0, boundtype = kLower\<rparr>],
         open_branchings = [0], open_lower_bound = 0, open_estimate = 0, open_depth = 2\<rparr>
        (fresh\<lparr>mipdata := (mipdata fresh)
           \<lparr>globalOrbits := Some \<lparr>orbitCols = [0, 1], stabilizedCols = []\<rparr>\<rparr>\<rparr>))
       = \<lparr>domchgstack = [\<lparr>boundval = 1, column = 0, boundtype = kLower\<rparr>],
          branchPos = [0], infeasible = False\<rparr>
   \<and> stabilizerOrbits (last (nodestack (installNode quiet
        \<lparr>open_domchgstack = [\<lparr>boundval = 1, column = 0, boundtype = kLower\<rparr>],
         open_branchings = [0], open_lower_bound = 0, open_estimate = 0, open_depth = 2\<rparr>
        (fresh\<lparr>mipdata := (mipdata fresh)
           \<lparr>globalOrbits := Some \<lparr>orbitCols = [0, 1], stabilizedCols = []\<rparr>\<rparr>\<rparr>)))) = None"
  by (simp add: installNode_frame installNode_localdom setDomainChangeStack_def
      spec_globalOrbitsValid_def quiet_def fresh_def newHighsSearch_def newNodeData_def)

text \<open>
  Claim C3, amended. When \<^verbatim>\<open>installNode\<close> seats a node taken from the queue and
  global orbits have been computed, the stored stack is handed to the local domain,
  and the global stabilizer orbits are attached to the new frame exactly when every
  branching domain change on a symmetry-tracked column is on a binary column and is
  not a lower-bound change with value 1; if a branching change on a symmetry-tracked
  column is on a column that is not binary, or sets a binary variable to 1 by a
  lower bound, the frame is seated with a null orbit pointer.
\<close>

theorem installNode_global_orbits:
  assumes "globalOrbits (mipdata s) = Some g"
  shows
    "(let s' = installNode env node s;
          d = localdom s';
          frame = last (nodestack s');
          valid = (\<forall>i \<in> set (branchPos d).
                     columnPosition env (column (domchgstack d ! i)) \<noteq> - 1 \<longrightarrow>
                       isBinary env (column (domchgstack d ! i))
                       \<and> \<not> (boundtype (domchgstack d ! i) = kLower
                             \<and> boundval (domchgstack d ! i) = 1))
      in domchgstack d = open_domchgstack node
         \<and> set (branchPos d) = {i. i \<in> set (open_branchings node) \<and> i < length (open_domchgstack node)}
         \<and> (stabilizerOrbits frame = Some g \<longleftrightarrow> valid)
         \<and> (\<not> valid \<longrightarrow> stabilizerOrbits frame = None))"
  using assms
  unfolding Let_def installNode_frame installNode_localdom globalSymmetriesValid_iff [symmetric]
  by (auto simp: setDomainChangeStack_def newNodeData_def)

theorem installNode_global_orbits_witness:
  "globalOrbits (mipdata (fresh\<lparr>mipdata := (mipdata fresh)
       \<lparr>globalOrbits := Some \<lparr>orbitCols = [0, 1], stabilizedCols = []\<rparr>\<rparr>\<rparr>))
     = Some \<lparr>orbitCols = [0, 1], stabilizedCols = []\<rparr>
   \<and> stabilizerOrbits (last (nodestack (installNode quiet
        \<lparr>open_domchgstack = [\<lparr>boundval = 0, column = 0, boundtype = kUpper\<rparr>],
         open_branchings = [0], open_lower_bound = 0, open_estimate = 0, open_depth = 2\<rparr>
        (fresh\<lparr>mipdata := (mipdata fresh)
           \<lparr>globalOrbits := Some \<lparr>orbitCols = [0, 1], stabilizedCols = []\<rparr>\<rparr>\<rparr>))))
     = Some \<lparr>orbitCols = [0, 1], stabilizedCols = []\<rparr>"
proof -
  have g: "globalOrbits (mipdata (fresh\<lparr>mipdata := (mipdata fresh)
       \<lparr>globalOrbits := Some \<lparr>orbitCols = [0, 1], stabilizedCols = []\<rparr>\<rparr>\<rparr>))
     = Some \<lparr>orbitCols = [0, 1], stabilizedCols = []\<rparr>"
    by simp
  show ?thesis
    using installNode_global_orbits [OF g, of quiet
        "\<lparr>open_domchgstack = [\<lparr>boundval = 0, column = 0, boundtype = kUpper\<rparr>],
          open_branchings = [0], open_lower_bound = 0, open_estimate = 0, open_depth = 2\<rparr>"]
    by (simp add: Let_def installNode_localdom setDomainChangeStack_def quiet_def)
qed


subsection \<open>The inheritance of the stabilizer orbits\<close>

lemma orbitsValidInChildNode_spec:
  "orbitsValidInChildNode env s branchChg
     = spec_orbitsValid env (stabilizerOrbits (last (nodestack s))) branchChg"
  by (auto simp: orbitsValidInChildNode_def spec_orbitsValid_def Let_def split: option.splits)

lemma stabilizerOrbits_newNodeData [simp]:
  "stabilizerOrbits (newNodeData env lb est basis orbits) = orbits"
  by (simp add: newNodeData_def)

lemma stabilizerOrbits_flip [simp]:
  "stabilizerOrbits (flipBranchingDecision env n) = stabilizerOrbits n"
  by (simp add: flipBranchingDecision_def Let_def)

lemma opensChild_append:
  "stabilizerOrbits parent = stabilizerOrbits before \<Longrightarrow>
   stabilizerOrbits child
     = (if spec_orbitsValid env (stabilizerOrbits before) (branchingdecision parent)
        then stabilizerOrbits before else None) \<Longrightarrow>
   opensChild env below before (branchingdecision parent) (below @ [parent, child])"
  by (simp add: opensChild_def childInheritsOrbits_def nth_append)

lemma branchDownwards_opens:
  assumes "nodestack s \<noteq> []" and "opensubtrees (last (nodestack s)) = 2"
    and "\<not> isContinuous env col"
  shows "\<exists>s'. branchDownwards env col newub branchpoint s = Some s'
           \<and> opensChild env (butlast (nodestack s)) (last (nodestack s))
                \<lparr>boundval = newub, column = col, boundtype = kUpper\<rparr> (nodestack s')"
  using assms
  by (simp add: branchDownwards_def Let_def orbitsValidInChildNode_spec
      opensChild_append [where parent = "(last (nodestack s))
              \<lparr>opensubtrees := 1,
               branching_point := branchpoint,
               branchingdecision := \<lparr>boundval = newub, column = col, boundtype = kUpper\<rparr>\<rparr>",
        simplified])

lemma branchUpwards_opens:
  assumes "nodestack s \<noteq> []" and "opensubtrees (last (nodestack s)) = 2"
    and "\<not> isContinuous env col"
  shows "\<exists>s'. branchUpwards env col newlb branchpoint s = Some s'
           \<and> opensChild env (butlast (nodestack s)) (last (nodestack s))
                \<lparr>boundval = newlb, column = col, boundtype = kLower\<rparr> (nodestack s')"
  using assms
  by (simp add: branchUpwards_def Let_def orbitsValidInChildNode_spec
      opensChild_append [where parent = "(last (nodestack s))
              \<lparr>opensubtrees := 1,
               branching_point := branchpoint,
               branchingdecision := \<lparr>boundval = newlb, column = col, boundtype = kLower\<rparr>\<rparr>",
        simplified])

lemma branch_openChild_opens:
  assumes "nodestack s \<noteq> []"
  shows "\<exists>s'. branch_openChild env s = Some (kBranched, s')
           \<and> opensChild env (butlast (nodestack s)) (last (nodestack s))
                (branchingdecision (last (nodestack s))) (nodestack s')"
  using assms
  by (simp add: branch_openChild_def Let_def orbitsValidInChildNode_spec
      opensChild_append [where parent = "(last (nodestack s))\<lparr>opensubtrees := 1\<rparr>",
        simplified])

lemma backtrack_flip_opens:
  assumes "backtrack_flip env t = Some (Descend u)" and "nodestack t \<noteq> []"
  shows "opensChild env (butlast (nodestack t)) (last (nodestack t))
           (branchingdecision (flipBranchingDecision env (last (nodestack t)))) (nodestack u)"
  using assms
  by (auto simp: backtrack_flip_def Let_def orbitsValidInChildNode_spec
      split: if_splits intro!: opensChild_append)

lemma backtrackPlunge_flip_opens:
  assumes "backtrackPlunge_flip env t = Some (PlungeDescend u)" and "nodestack t \<noteq> []"
  shows "opensChild env (butlast (nodestack t)) (last (nodestack t))
           (branchingdecision (flipBranchingDecision env (last (nodestack t)))) (nodestack u)"
  using assms
  by (auto simp: backtrackPlunge_flip_def Let_def orbitsValidInChildNode_spec
      split: if_splits intro!: opensChild_append)

text \<open>
  The frame that is flipped is frame \<open>k\<close> of the node stack the backtracker started
  from, where \<open>k + 2\<close> is the length of the node stack it returns.
\<close>

lemma opensChild_prefix:
  assumes o: "opensChild env (butlast ts) (last ts)
                (branchingdecision (flipBranchingDecision env (last ts))) stack"
    and tn: "ts \<noteq> []" and t: "take (length ts) xs = ts" and tl: "length ts \<le> length xs"
    and os: "opensubtrees (last ts) = 1"
  shows "let k = length stack - 2
         in k < length xs \<and> opensubtrees (xs ! k) = 1
            \<and> opensChild env (take k xs) (xs ! k)
                 (branchingdecision (flipBranchingDecision env (xs ! k))) stack"
proof -
  have len: "length stack = length ts + 1"
    using o tn by (simp add: opensChild_def)
  then have k: "length stack - 2 = length ts - 1" by simp
  have pos: "0 < length ts" using tn by simp
  have lt: "length ts - 1 < length xs" using pos tl by arith
  have "last ts = ts ! (length ts - 1)" using tn by (simp add: last_conv_nth)
  also have "\<dots> = take (length ts) xs ! (length ts - 1)" by (simp only: t)
  also have "\<dots> = xs ! (length ts - 1)" using pos by simp
  finally have lastt: "last ts = xs ! (length ts - 1)" .
  have "butlast ts = butlast (take (length ts) xs)" by (simp only: t)
  also have "\<dots> = take (length ts - 1) xs" using tl by (simp add: butlast_take)
  finally have butl: "butlast ts = take (length ts - 1) xs" .
  show ?thesis
    unfolding Let_def k
    using o lt os by (simp add: lastt butl)
qed

lemma backtrack_opens:
  assumes "backtrack env recoverBasis s = Some (True, s')"
  shows "let k = length (nodestack s') - 2
         in k < length (nodestack s) \<and> opensubtrees (nodestack s ! k) = 1
            \<and> opensChild env (take k (nodestack s)) (nodestack s ! k)
                 (branchingdecision (flipBranchingDecision env (nodestack s ! k))) (nodestack s')"
proof -
  from assms obtain u where u: "backtrack_loop env s = Some (True, u)"
    and n: "nodestack s' = nodestack u"
    by (auto simp: backtrack_def split: if_splits option.splits)
  from backtrack_loop_reaches [OF u] obtain t where
    t: "nodestack t \<noteq> []" "backtrack_flip env t = Some (Descend u)"
       "length (nodestack t) \<le> length (nodestack s)"
       "take (length (nodestack t)) (nodestack s) = nodestack t"
    by blast
  show ?thesis
    unfolding n
    by (rule opensChild_prefix [OF backtrack_flip_opens [OF t(2) t(1)] t(1) t(4) t(3)
          backtrack_flip_opensubtrees [OF t(2)]])
qed

lemma backtrackPlunge_opens:
  assumes "backtrackPlunge env s q = Some (True, s', q')"
  shows "let k = length (nodestack s') - 2
         in k < length (nodestack s) \<and> opensubtrees (nodestack s ! k) = 1
            \<and> opensChild env (take k (nodestack s)) (nodestack s ! k)
                 (branchingdecision (flipBranchingDecision env (nodestack s ! k))) (nodestack s')"
proof -
  from assms obtain u where u: "backtrackPlunge_loop env s q = Some (True, u, q')"
    and n: "nodestack s' = nodestack u"
    by (auto simp: backtrackPlunge_def split: if_splits option.splits)
  from backtrackPlunge_loop_reaches [OF u] obtain t where
    t: "nodestack t \<noteq> []" "backtrackPlunge_flip env t = Some (PlungeDescend u)"
       "length (nodestack t) \<le> length (nodestack s)"
       "take (length (nodestack t)) (nodestack s) = nodestack t"
    by blast
  show ?thesis
    unfolding n
    by (rule opensChild_prefix [OF backtrackPlunge_flip_opens [OF t(2) t(1)] t(1) t(4) t(3)
          backtrackPlunge_flip_opensubtrees [OF t(2)]])
qed

lemma backtrackUntilDepth_opens:
  assumes "backtrackUntilDepth env targetDepth s = Some (True, s')"
  shows "let k = length (nodestack s') - 2
         in k < length (nodestack s) \<and> opensubtrees (nodestack s ! k) = 1
            \<and> opensChild env (take k (nodestack s)) (nodestack s ! k)
                 (branchingdecision (flipBranchingDecision env (nodestack s ! k))) (nodestack s')"
proof -
  let ?s0 = "if getCurrentDepth s \<ge> targetDepth
             then setCurrnode (\<lambda>n. n\<lparr>opensubtrees := 0\<rparr>) s else s"
  from assms have ne: "nodestack s \<noteq> []"
    by (auto simp: backtrackUntilDepth_def split: if_splits)
  from assms ne obtain t where t: "backtrackUntilDepth_loop targetDepth ?s0 = Some (Popped t)"
    and os: "opensubtrees (last (nodestack t)) = 1"
    by (auto simp: backtrackUntilDepth_def Let_def split: if_splits option.splits Unwound.splits)
  have os0: "opensubtrees (last (nodestack t)) \<noteq> 0" using os by simp
  from backtrackUntilDepth_loop_reaches [OF t os0]
  have r: "nodestack t \<noteq> []" "length (nodestack t) \<le> length (nodestack ?s0)"
    "take (length (nodestack t)) (nodestack ?s0) = nodestack t"
    by simp_all
  have "butlast (nodestack ?s0) = butlast (nodestack s)"
    and "length (nodestack ?s0) = length (nodestack s)"
    by simp_all
  then have b: "butlast (nodestack ?s0) = take (length (nodestack ?s0) - 1) (nodestack s)"
    by (simp only: butlast_conv_take)
  have l: "length (nodestack ?s0) \<le> length (nodestack s)" by simp
  have c: "nodestack ?s0 = take (length (nodestack ?s0)) (nodestack s)
           \<or> opensubtrees (last (nodestack ?s0)) = 0"
    using ne by simp
  from prefix_step [OF r(3) r(2) r(1) os0 b l c]
  have p: "take (length (nodestack t)) (nodestack s) = nodestack t"
    "length (nodestack t) \<le> length (nodestack s)"
    by simp_all
  have o: "opensChild env (butlast (nodestack t)) (last (nodestack t))
             (branchingdecision (flipBranchingDecision env (last (nodestack t)))) (nodestack s')"
    using assms ne t os r(1)
    by (auto simp: backtrackUntilDepth_def Let_def orbitsValidInChildNode_spec
        split: if_splits intro!: opensChild_append)
  show ?thesis
    by (rule opensChild_prefix [OF o r(1) p(1) p(2) os])
qed

lemma climbing_nodestack:
  "nodestack climbing =
     [\<lparr>lower_bound = 0, estimate = 0, branching_point = 1 / 2, lp_objective = - (10 ^ 30),
       nodeBasis = None,
       stabilizerOrbits = Some \<lparr>orbitCols = [0, 1], stabilizedCols = []\<rparr>,
       branchingdecision = \<lparr>boundval = 1, column = 0, boundtype = kLower\<rparr>,
       domgchgStackPos = 0, skipDepthCount = 0, opensubtrees = 1\<rparr>,
      \<lparr>lower_bound = 0, estimate = 0, branching_point = 0, lp_objective = - (10 ^ 30),
       nodeBasis = None,
       stabilizerOrbits = None,
       branchingdecision = \<lparr>boundval = 0, column = - 1, boundtype = kLower\<rparr>,
       domgchgStackPos = 0, skipDepthCount = 0, opensubtrees = 0\<rparr>]"
  by (simp add: climbing_def branchUpwards_def cutoffNode_def changeBound_def pushChange_def
      orbitsValidInChildNode_def newNodeData_def updateLast_def Let_def
      rooted_nodestack rooted_localdom quiet_simps)

lemma climbing_localdom:
  "localdom climbing =
     \<lparr>domchgstack = [\<lparr>boundval = 1, column = 0, boundtype = kLower\<rparr>], branchPos = [0],
      infeasible = False\<rparr>"
  by (simp add: climbing_def branchUpwards_def cutoffNode_def changeBound_def pushChange_def
      orbitsValidInChildNode_def newNodeData_def updateLast_def Let_def
      rooted_nodestack rooted_localdom quiet_simps)

lemma climbing_limits:
  "mip_upper_limit (mipdata climbing) = 10 ^ 30" "upper_limit climbing = 10 ^ 30"
  "depthoffset climbing = 0" "treeweight climbing = 0"
  by (simp_all add: climbing_def branchUpwards_def cutoffNode_def changeBound_def
      Let_def rooted_nodestack rooted_limits quiet_simps)

lemma decided_nodestack:
  "nodestack decided =
     [\<lparr>lower_bound = 0, estimate = 0, branching_point = 1 / 2, lp_objective = - (10 ^ 30),
       nodeBasis = None,
       stabilizerOrbits = Some \<lparr>orbitCols = [0, 1], stabilizedCols = []\<rparr>,
       branchingdecision = \<lparr>boundval = 0, column = 0, boundtype = kUpper\<rparr>,
       domgchgStackPos = 0, skipDepthCount = 0, opensubtrees = 2\<rparr>]"
  by (simp add: decided_def setCurrnode_def updateLast_def rooted_nodestack)

lemma climbing_backtrack:
  "\<exists>s'. backtrack quiet True climbing = Some (True, s') \<and> length (nodestack s') = 2"
  by (simp add: backtrack_def backtrack_loop.simps
      backtrack_pop_def backtrack_popFrame_def backtrack_repropagate_def
      backtrack_flip_def applyFlipped_def flipBranchingDecision_def
      backtrackDomain_def domain_backtrack_def changeBound_def pushChange_def propagate_def
      pushImplied_def orbitalFixing_def logCall_def setCurrnode_def updateLast_def
      orbitsValidInChildNode_def getCutoffBound_def backtrackedBranching_def
      recoverNodeBasis_def newNodeData_def getCurrentDepth_def
      Let_def climbing_nodestack climbing_localdom climbing_limits quiet_simps)

lemma unwinding_backtrack:
  "\<exists>s'. backtrack quiet True unwinding = Some (True, s') \<and> length (nodestack s') = 2"
  by (simp add: backtrack_def backtrack_loop.simps
      backtrack_pop_def backtrack_popFrame_def backtrack_repropagate_def
      backtrack_flip_def applyFlipped_def flipBranchingDecision_def
      backtrackDomain_def domain_backtrack_def changeBound_def pushChange_def propagate_def
      pushImplied_def orbitalFixing_def logCall_def setCurrnode_def updateLast_def
      orbitsValidInChildNode_def getCutoffBound_def backtrackedBranching_def
      recoverNodeBasis_def newNodeData_def getCurrentDepth_def
      Let_def unwinding_nodestack unwinding_localdom unwinding_limits quiet_simps)

lemma climbing_backtrackPlunge:
  "\<exists>s' q'. backtrackPlunge quiet climbing [] = Some (True, s', q')
      \<and> length (nodestack s') = 2"
  by (simp add: backtrackPlunge_def backtrackPlunge_loop.simps
      backtrack_pop_def backtrack_popFrame_def backtrack_repropagate_def
      backtrackPlunge_flip_def applyFlipped_def flipBranchingDecision_def plunge_nodeScore_def
      backtrackDomain_def domain_backtrack_def changeBound_def pushChange_def propagate_def
      pushImplied_def orbitalFixing_def logCall_def setCurrnode_def updateLast_def
      orbitsValidInChildNode_def getCutoffBound_def backtrackedBranching_def
      recoverNodeBasis_def newNodeData_def getCurrentDepth_def
      Let_def climbing_nodestack climbing_localdom climbing_limits quiet_simps)

lemma unwinding_backtrackUntilDepth:
  "\<exists>s'. backtrackUntilDepth quiet 2 unwinding = Some (True, s') \<and> length (nodestack s') = 2"
  by (simp add: backtrackUntilDepth_def backtrackUntilDepth_loop.simps
      flipBranchingDecision_def
      backtrackDomain_def domain_backtrack_def changeBound_def pushChange_def
      logCall_def setCurrnode_def updateLast_def
      orbitsValidInChildNode_def backtrackedBranching_def
      newNodeData_def getCurrentDepth_def
      Let_def unwinding_nodestack unwinding_localdom unwinding_limits quiet_simps)

text \<open>
  Claim C2. A child frame created by a branching operation (\<^verbatim>\<open>branch\<close>,
  \<^verbatim>\<open>branchDownwards\<close>, \<^verbatim>\<open>branchUpwards\<close>, or the flip of a backtrack:
  \<^verbatim>\<open>backtrack\<close>, \<^verbatim>\<open>backtrackPlunge\<close>, \<^verbatim>\<open>backtrackUntilDepth\<close>) inherits the
  stabilizer orbits the parent frame had before the operation if and only if
  \<^verbatim>\<open>orbitsValidInChildNode\<close> holds for the branching change, that is if and only if
  the parent has no stabilizer (or its set of orbit columns is empty), or the
  branched column is stabilized, or the branch is a down branch (an upper-bound
  change) on a globally binary column; otherwise the child's orbit pointer is null;
  and the parent keeps its orbits. The two branchings and the tail of \<^verbatim>\<open>branch\<close>
  open the child whenever their assertions hold; the frame a backtrack flips is
  the frame \<open>k\<close> of the node stack it started from, with one subtree open there,
  and the frames below it are as they were.
\<close>

theorem child_inherits_orbits:
  "(nodestack s \<noteq> [] \<and> opensubtrees (last (nodestack s)) = 2 \<and> \<not> isContinuous env col \<longrightarrow>
      (\<exists>d. branchDownwards env col newub branchpoint s = Some d
          \<and> opensChild env (butlast (nodestack s)) (last (nodestack s))
               \<lparr>boundval = newub, column = col, boundtype = kUpper\<rparr> (nodestack d))
      \<and> (\<exists>u. branchUpwards env col newlb branchpoint s = Some u
          \<and> opensChild env (butlast (nodestack s)) (last (nodestack s))
               \<lparr>boundval = newlb, column = col, boundtype = kLower\<rparr> (nodestack u)))
   \<and> (nodestack s \<noteq> [] \<longrightarrow>
      (\<exists>b. branch_openChild env s = Some (kBranched, b)
          \<and> opensChild env (butlast (nodestack s)) (last (nodestack s))
               (branchingdecision (last (nodestack s))) (nodestack b)))
   \<and> (backtrack env recoverBasis s = Some (True, s')
       \<or> backtrackPlunge env s nodequeue = Some (True, s', nodequeue')
       \<or> backtrackUntilDepth env targetDepth s = Some (True, s') \<longrightarrow>
      (let k = length (nodestack s') - 2
       in k < length (nodestack s) \<and> opensubtrees (nodestack s ! k) = 1
          \<and> opensChild env (take k (nodestack s)) (nodestack s ! k)
               (branchingdecision (flipBranchingDecision env (nodestack s ! k)))
               (nodestack s')))
   \<and> (nodestack t \<noteq> [] \<and> opensubtrees (last (nodestack t)) = 1 \<longrightarrow>
      (\<exists>r. backtrack_flip env t = Some r
          \<and> (case r of
                Descend u \<Rightarrow>
                  opensChild env (butlast (nodestack t)) (last (nodestack t))
                    (branchingdecision (flipBranchingDecision env (last (nodestack t))))
                    (nodestack u)
              | Pruned u \<Rightarrow> length (nodestack u) = length (nodestack t)))
      \<and> (\<exists>r. backtrackPlunge_flip env t = Some r
          \<and> (case r of
                PlungeDescend u \<Rightarrow>
                  opensChild env (butlast (nodestack t)) (last (nodestack t))
                    (branchingdecision (flipBranchingDecision env (last (nodestack t))))
                    (nodestack u)
              | PlungePruned u \<Rightarrow> length (nodestack u) = length (nodestack t)
              | Parked u node \<Rightarrow> length (nodestack u) = length (nodestack t))))
   \<and> orbitsValidInChildNode env s branchChg
        = spec_orbitsValid env (stabilizerOrbits (last (nodestack s))) branchChg"
proof (intro conjI impI, goal_cases)
  case 1 then show ?case by (intro branchDownwards_opens) simp_all
next
  case 2 then show ?case by (intro branchUpwards_opens) simp_all
next
  case 3 then show ?case by (rule branch_openChild_opens)
next
  case 4 then show ?case
    using backtrack_opens backtrackPlunge_opens backtrackUntilDepth_opens by blast
next
  case 5
  then have ne: "nodestack t \<noteq> []" and os: "opensubtrees (last (nodestack t)) = 1" by simp_all
  from os have "backtrack_flip env t \<noteq> None"
    by (simp add: backtrack_flip_def Let_def)
  then obtain r where r: "backtrack_flip env t = Some r" by blast
  show ?case
  proof (cases r)
    case (Pruned u)
    with r backtrack_flip_Pruned [OF r [unfolded Pruned] ne] ne show ?thesis by simp
  next
    case (Descend u)
    with r backtrack_flip_opens [OF r [unfolded Descend] ne] show ?thesis by simp
  qed
next
  case 6
  then have ne: "nodestack t \<noteq> []" and os: "opensubtrees (last (nodestack t)) = 1" by simp_all
  from os have "backtrackPlunge_flip env t \<noteq> None"
    by (simp add: backtrackPlunge_flip_def Let_def)
  then obtain r where r: "backtrackPlunge_flip env t = Some r" by blast
  show ?case
  proof (cases r)
    case (PlungePruned u)
    with r backtrackPlunge_flip_continue [OF r ne, of u] ne show ?thesis by simp
  next
    case (Parked u node)
    with r backtrackPlunge_flip_continue [OF r ne, of u node] ne show ?thesis by simp
  next
    case (PlungeDescend u)
    with r backtrackPlunge_flip_opens [OF r [unfolded PlungeDescend] ne] show ?thesis by simp
  qed
next
  case 7 show ?case by (rule orbitsValidInChildNode_spec)
qed


theorem child_inherits_orbits_witness:
  "map_option (\<lambda>s'. stabilizerOrbits (last (nodestack s')))
       (branchDownwards quiet 0 0 (1 / 2) rooted)
     = Some (Some \<lparr>orbitCols = [0, 1], stabilizedCols = []\<rparr>)
   \<and> map_option (\<lambda>s'. stabilizerOrbits (last (nodestack s')))
         (branchUpwards quiet 0 1 (1 / 2) rooted)
       = Some None
   \<and> map_option (\<lambda>(r, s'). stabilizerOrbits (last (nodestack s')))
         (branch_openChild quiet decided)
       = Some (Some \<lparr>orbitCols = [0, 1], stabilizedCols = []\<rparr>)
   \<and> map_option (\<lambda>(found, s'). (found, stabilizerOrbits (last (nodestack s'))))
         (backtrack quiet True climbing)
       = Some (True, Some \<lparr>orbitCols = [0, 1], stabilizedCols = []\<rparr>)
   \<and> map_option (\<lambda>(found, s'). (found, stabilizerOrbits (last (nodestack s'))))
         (backtrack quiet True unwinding)
       = Some (True, None)
   \<and> map_option (\<lambda>(found, s', q). (found, stabilizerOrbits (last (nodestack s'))))
         (backtrackPlunge quiet climbing [])
       = Some (True, Some \<lparr>orbitCols = [0, 1], stabilizedCols = []\<rparr>)
   \<and> map_option (\<lambda>(found, s'). (found, stabilizerOrbits (last (nodestack s'))))
         (backtrackUntilDepth quiet 2 unwinding)
       = Some (True, None)"
proof -
  have h: "nodestack rooted \<noteq> [] \<and> opensubtrees (last (nodestack rooted)) = 2
           \<and> \<not> isContinuous quiet 0"
    by (simp add: rooted_nodestack quiet_simps)
  from child_inherits_orbits [where s = rooted and env = quiet and col = 0 and newub = 0
      and newlb = 1 and branchpoint = "1 / 2", THEN conjunct1, rule_format, OF h]
  obtain d u where d: "branchDownwards quiet 0 0 (1 / 2) rooted = Some d"
    and od: "opensChild quiet (butlast (nodestack rooted)) (last (nodestack rooted))
               \<lparr>boundval = 0, column = 0, boundtype = kUpper\<rparr> (nodestack d)"
    and u: "branchUpwards quiet 0 1 (1 / 2) rooted = Some u"
    and ou: "opensChild quiet (butlast (nodestack rooted)) (last (nodestack rooted))
               \<lparr>boundval = 1, column = 0, boundtype = kLower\<rparr> (nodestack u)"
    by blast
  have 1: "map_option (\<lambda>s'. stabilizerOrbits (last (nodestack s')))
       (branchDownwards quiet 0 0 (1 / 2) rooted)
     = Some (Some \<lparr>orbitCols = [0, 1], stabilizedCols = []\<rparr>)"
    using od
    by (simp add: d opensChild_def childInheritsOrbits_def spec_orbitsValid_def
        rooted_nodestack quiet_simps)
  have 2: "map_option (\<lambda>s'. stabilizerOrbits (last (nodestack s')))
         (branchUpwards quiet 0 1 (1 / 2) rooted)
       = Some None"
    using ou
    by (simp add: u opensChild_def childInheritsOrbits_def spec_orbitsValid_def
        rooted_nodestack quiet_simps)
  have hb: "nodestack decided \<noteq> []" by (simp add: decided_nodestack)
  from child_inherits_orbits [where s = decided and env = quiet,
      THEN conjunct2, THEN conjunct1, rule_format, OF hb]
  obtain b where b: "branch_openChild quiet decided = Some (kBranched, b)"
    and ob: "opensChild quiet (butlast (nodestack decided)) (last (nodestack decided))
               (branchingdecision (last (nodestack decided))) (nodestack b)"
    by blast
  have 3: "map_option (\<lambda>(r, s'). stabilizerOrbits (last (nodestack s')))
         (branch_openChild quiet decided)
       = Some (Some \<lparr>orbitCols = [0, 1], stabilizedCols = []\<rparr>)"
    using ob
    by (simp add: b opensChild_def childInheritsOrbits_def spec_orbitsValid_def
        decided_nodestack quiet_simps)
  have fc: "boundtype (branchingdecision (flipBranchingDecision quiet (nodestack climbing ! 0)))
              = kUpper"
    "column (branchingdecision (flipBranchingDecision quiet (nodestack climbing ! 0))) = 0"
    "stabilizerOrbits (nodestack climbing ! 0)
       = Some \<lparr>orbitCols = [0, 1], stabilizedCols = []\<rparr>"
    by (simp_all add: flipBranchingDecision_def climbing_nodestack Let_def)
  have fu: "boundtype (branchingdecision (flipBranchingDecision quiet (nodestack unwinding ! 0)))
              = kLower"
    "column (branchingdecision (flipBranchingDecision quiet (nodestack unwinding ! 0))) = 2"
    "stabilizerOrbits (nodestack unwinding ! 0)
       = Some \<lparr>orbitCols = [0, 1], stabilizedCols = []\<rparr>"
    by (simp_all add: flipBranchingDecision_def unwinding_nodestack Let_def)
  from climbing_backtrack obtain c where
    c: "backtrack quiet True climbing = Some (True, c)" and lc: "length (nodestack c) = 2"
    by blast
  have 4: "map_option (\<lambda>(found, s'). (found, stabilizerOrbits (last (nodestack s'))))
         (backtrack quiet True climbing)
       = Some (True, Some \<lparr>orbitCols = [0, 1], stabilizedCols = []\<rparr>)"
    using child_inherits_orbits [where s = climbing and env = quiet and recoverBasis = True
        and s' = c, THEN conjunct2, THEN conjunct2, THEN conjunct1, rule_format,
        OF disjI1, OF c]
    by (simp add: c lc Let_def opensChild_def childInheritsOrbits_def spec_orbitsValid_def
        fc quiet_simps)
  from unwinding_backtrack obtain w where
    w: "backtrack quiet True unwinding = Some (True, w)" and lw: "length (nodestack w) = 2"
    by blast
  have 5: "map_option (\<lambda>(found, s'). (found, stabilizerOrbits (last (nodestack s'))))
         (backtrack quiet True unwinding)
       = Some (True, None)"
    using child_inherits_orbits [where s = unwinding and env = quiet and recoverBasis = True
        and s' = w, THEN conjunct2, THEN conjunct2, THEN conjunct1, rule_format,
        OF disjI1, OF w]
    by (simp add: w lw Let_def opensChild_def childInheritsOrbits_def spec_orbitsValid_def
        fu quiet_simps)
  from climbing_backtrackPlunge obtain p q where
    p: "backtrackPlunge quiet climbing [] = Some (True, p, q)"
    and lp: "length (nodestack p) = 2"
    by blast
  have 6: "map_option (\<lambda>(found, s', q). (found, stabilizerOrbits (last (nodestack s'))))
         (backtrackPlunge quiet climbing [])
       = Some (True, Some \<lparr>orbitCols = [0, 1], stabilizedCols = []\<rparr>)"
    using child_inherits_orbits [where s = climbing and env = quiet and nodequeue = "[]"
        and nodequeue' = q and s' = p, THEN conjunct2, THEN conjunct2, THEN conjunct1,
        rule_format, OF disjI2, OF disjI1, OF p]
    by (simp add: p lp Let_def opensChild_def childInheritsOrbits_def spec_orbitsValid_def
        fc quiet_simps)
  from unwinding_backtrackUntilDepth obtain v where
    v: "backtrackUntilDepth quiet 2 unwinding = Some (True, v)"
    and lv: "length (nodestack v) = 2"
    by blast
  have 7: "map_option (\<lambda>(found, s'). (found, stabilizerOrbits (last (nodestack s'))))
         (backtrackUntilDepth quiet 2 unwinding)
       = Some (True, None)"
    using child_inherits_orbits [where s = unwinding and env = quiet and targetDepth = 2
        and s' = v, THEN conjunct2, THEN conjunct2, THEN conjunct1, rule_format,
        OF disjI2, OF disjI2, OF v]
    by (simp add: v lv Let_def opensChild_def childInheritsOrbits_def spec_orbitsValid_def
        fu quiet_simps)
  show ?thesis
    by (intro conjI) (rule 1 2 3 4 5 6 7)+
qed


subsection \<open>The flip of a branching decision\<close>

lemma spec_flipped_flipBranchingDecision:
  "spec_flipped (roundDouble env) n (flipBranchingDecision env n)"
  by (cases "boundtype (branchingdecision n)")
     (simp_all add: spec_flipped_def flipBranchingDecision_def Let_def)

lemma backtrack_flip_Descend:
  assumes "backtrack_flip env t = Some (Descend s')" and "nodestack t \<noteq> []"
  shows "\<exists>child implied.
           nodestack s' = butlast (nodestack t) @ [flipBranchingDecision env (last (nodestack t)), child]
           \<and> domgchgStackPos child = int (length (domchgstack (localdom t)))
           \<and> domchgstack (localdom s')
               = domchgstack (localdom t)
                   @ [branchingdecision (flipBranchingDecision env (last (nodestack t)))] @ implied"
proof -
  let ?c = "flipBranchingDecision env (last (nodestack t))"
  let ?s1 = "t\<lparr>nodestack := butlast (nodestack t) @ [?c]\<rparr>"
  let ?p = "orbitsValidInChildNode env ?s1 (branchingdecision ?c)"
  obtain implied where
    "domchgstack (localdom (snd (applyFlipped env ?p ?s1)))
       = domchgstack (localdom ?s1) @ [branchingdecision (last (nodestack ?s1))] @ implied"
    using applyFlipped_stack by blast
  then show ?thesis
    using assms
    by (auto simp: backtrack_flip_def Let_def split: if_splits)
qed

lemma backtrack_flipped_frame:
  assumes "backtrack env recoverBasis s = Some (True, s')"
  shows "\<exists>k child.
           k < length (nodestack s)
           \<and> opensubtrees (nodestack s ! k) = 1
           \<and> nodestack s' = take k (nodestack s) @ [flipBranchingDecision env (nodestack s ! k), child]
           \<and> 0 \<le> domgchgStackPos child
           \<and> take (nat (domgchgStackPos child) + 1) (domchgstack (localdom s'))
               = take (nat (domgchgStackPos child)) (domchgstack (localdom s'))
                   @ [branchingdecision (flipBranchingDecision env (nodestack s ! k))]
           \<and> nat (domgchgStackPos child) < length (domchgstack (localdom s'))"
proof -
  from assms obtain u where u: "backtrack_loop env s = Some (True, u)"
    and n: "nodestack s' = nodestack u" and d: "localdom s' = localdom u"
    by (auto simp: backtrack_def split: if_splits option.splits)
  from backtrack_loop_reaches [OF u] obtain t where
    t: "nodestack t \<noteq> []" "backtrack_flip env t = Some (Descend u)"
       "length (nodestack t) \<le> length (nodestack s)"
       "take (length (nodestack t)) (nodestack s) = nodestack t"
    by blast
  define k where "k = length (nodestack t) - 1"
  have pos: "0 < length (nodestack t)" using t(1) by simp
  have k: "k < length (nodestack s)" "Suc k = length (nodestack t)"
    using pos t(3) unfolding k_def by arith+
  have lastt: "last (nodestack t) = nodestack s ! k"
  proof -
    have "last (nodestack t) = nodestack t ! k"
      using t(1) by (simp add: last_conv_nth k_def)
    also have "\<dots> = take (Suc k) (nodestack s) ! k" using t(4) k(2) by simp
    also have "\<dots> = nodestack s ! k" by simp
    finally show ?thesis .
  qed
  have butl: "butlast (nodestack t) = take k (nodestack s)"
  proof -
    have "butlast (nodestack t) = butlast (take (Suc k) (nodestack s))"
      using t(4) k(2) by simp
    also have "\<dots> = take k (nodestack s)"
      using k(1) by (simp add: butlast_take)
    finally show ?thesis .
  qed
  from backtrack_flip_Descend [OF t(2) t(1)] obtain child implied where
    c: "nodestack u = butlast (nodestack t) @ [flipBranchingDecision env (last (nodestack t)), child]"
       "domgchgStackPos child = int (length (domchgstack (localdom t)))"
       "domchgstack (localdom u)
          = domchgstack (localdom t)
              @ [branchingdecision (flipBranchingDecision env (last (nodestack t)))] @ implied"
    by blast
  have os: "opensubtrees (nodestack s ! k) = 1"
    using backtrack_flip_opensubtrees [OF t(2)] lastt by simp
  show ?thesis
    using k(1) os c
    by (intro exI [of _ k] exI [of _ child])
       (simp add: n d lastt butl)
qed

lemma backtrack_loop_closed:
  "nodestack s \<noteq> [] \<Longrightarrow> opensubtrees (last (nodestack s)) = 0 \<Longrightarrow>
     backtrack_loop env s =
       (case backtrack_pop env s of
          None \<Rightarrow> None
        | Some (Emptied s') \<Rightarrow> Some (False, s')
        | Some (Popped s') \<Rightarrow> backtrack_loop env s')"
  by (subst backtrack_loop.simps) simp

lemma backtrack_loop_open:
  "nodestack s \<noteq> [] \<Longrightarrow> opensubtrees (last (nodestack s)) \<noteq> 0 \<Longrightarrow>
     backtrack_loop env s =
       (case backtrack_flip env s of
          None \<Rightarrow> None
        | Some (Pruned s') \<Rightarrow> backtrack_loop env s'
        | Some (Descend s') \<Rightarrow> Some (True, s'))"
  by (subst backtrack_loop.simps) simp

lemma backtrack_closed:
  "nodestack s \<noteq> [] \<Longrightarrow> opensubtrees (last (nodestack s)) = 0 \<Longrightarrow>
     backtrack env recoverBasis s =
       (case backtrack_loop env s of
          None \<Rightarrow> None
        | Some (found, s') \<Rightarrow>
            if \<not> found then Some (False, s')
            else Some (True, if recoverBasis then recoverNodeBasis s' else s'))"
  by (simp add: backtrack_def)

lemma backtrackedBranching_opensubtrees [simp]:
  "backtrackedBranching b (n\<lparr>opensubtrees := k\<rparr>) = backtrackedBranching b n"
  by (simp add: backtrackedBranching_def)

lemma backtrack_pop_open:
  assumes "nodestack s = frames @ [f, c]" and "opensubtrees f \<noteq> 0"
  shows "backtrack_pop env s =
     (let r = backtrack_repropagate env (snd (backtrackDomain (backtrack_popFrame s)))
      in if backtrackedBranching (fst (backtrackDomain (backtrack_popFrame s))) f
         then Some (Popped (if infeasible (localdom r)
                            then setCurrnode (\<lambda>n. n\<lparr>opensubtrees := 0\<rparr>)
                                   (logCall ClearChangedCols r)
                            else r))
         else None)"
proof -
  have b: "butlast (nodestack s) = frames @ [f]"
    using assms(1) by (simp add: butlast_append)
  show ?thesis
    using assms(2) by (simp add: backtrack_pop_def Let_def b)
qed

lemma backtrack_flip_frames:
  assumes "nodestack r = frames @ [f]" and "opensubtrees f = 1"
  shows "(\<exists>u. backtrack_flip env r = Some (Pruned u)
            \<and> nodestack u = frames @ [flipBranchingDecision env f])
         \<or> (\<exists>u. backtrack_flip env r = Some (Descend u)
              \<and> butlast (nodestack u) = frames @ [flipBranchingDecision env f])"
  using assms by (simp add: backtrack_flip_def Let_def butlast_append)

text \<open>
  Claim C1, amended. \<^verbatim>\<open>backtrack\<close> reaches a frame \<open>f\<close> with \<open>open_subtrees = 1\<close>
  when it pops the closed frame \<open>c\<close> above it, and it propagates the domain of \<open>f\<close>
  again. If the domain is then infeasible, \<open>f\<close> is closed with its branching
  decision as it was, and \<^verbatim>\<open>backtrack\<close> goes on from there, popping \<open>f\<close> in its
  turn. If it is not, the decision of \<open>f\<close> is flipped: a lower-bound branch with
  bound \<open>v\<close> becomes the upper bound \<open>\<lfloor>v - 0.5\<rfloor>\<close> on the same column, an upper-bound
  branch becomes the lower bound \<open>\<lceil>v + 0.5\<rceil>\<close>, the difference and the sum rounded to
  a double, and if the bound before the flip equalled \<open>branching_point\<close> (a
  fallback branch), \<open>branching_point\<close> is set to the flipped bound; then either the
  flipped subtree is pruned and \<^verbatim>\<open>backtrack\<close> goes on from the closed frame, or the
  child is pushed above the flipped frame and \<^verbatim>\<open>backtrack\<close> returns true. Where
  the difference and the sum are exact, the flip is the one of the spec. When
  \<^verbatim>\<open>backtrack\<close> returns true, the frame below the new child is the flipped frame,
  the frames below it are untouched, and the flipped bound is the domain change at
  the child's position; and the step that flips the last frame flips it whether
  the flipped subtree is pruned or descended.
\<close>

theorem backtrack_flips_decision:
  "(nodestack s = frames @ [f, c] \<and> opensubtrees c = 0 \<and> opensubtrees f = 1
     \<and> backtrackedBranching (fst (backtrackDomain (backtrack_popFrame s))) f \<longrightarrow>
      (let r = backtrack_repropagate env (snd (backtrackDomain (backtrack_popFrame s)))
       in if infeasible (localdom r)
          then (\<exists>t. backtrack_pop env s = Some (Popped t)
                  \<and> nodestack t = frames @ [f\<lparr>opensubtrees := 0\<rparr>]
                  \<and> backtrack env recoverBasis s = backtrack env recoverBasis t)
          else (\<exists>u f'. backtrack_pop env s = Some (Popped r) \<and> nodestack r = frames @ [f]
                  \<and> spec_flipped (roundDouble env) f f' \<and> opensubtrees f' = 0
                  \<and> ((backtrack_flip env r = Some (Pruned u) \<and> nodestack u = frames @ [f']
                       \<and> backtrack env recoverBasis s = backtrack env recoverBasis u)
                     \<or> (backtrack_flip env r = Some (Descend u)
                         \<and> butlast (nodestack u) = frames @ [f']
                         \<and> backtrack env recoverBasis s
                             = Some (True, if recoverBasis then recoverNodeBasis u else u))))))
   \<and> (roundDouble env (boundval (branchingdecision f) - 1 / 2)
          = boundval (branchingdecision f) - 1 / 2
        \<and> roundDouble env (boundval (branchingdecision f) + 1 / 2)
            = boundval (branchingdecision f) + 1 / 2 \<longrightarrow>
        spec_flipped (\<lambda>x. x) f (flipBranchingDecision env f))
   \<and> (backtrack env recoverBasis s = Some (True, s') \<longrightarrow>
      (let k = length (nodestack s') - 2;
           old = nodestack s ! k;
           new = nodestack s' ! k;
           child = last (nodestack s')
       in k < length (nodestack s) \<and> length (nodestack s') = k + 2
          \<and> take k (nodestack s') = take k (nodestack s)
          \<and> opensubtrees old = 1 \<and> opensubtrees new = 0
          \<and> spec_flipped (roundDouble env) old new
          \<and> 0 \<le> domgchgStackPos child
          \<and> nat (domgchgStackPos child) < length (domchgstack (localdom s'))
          \<and> domchgstack (localdom s') ! nat (domgchgStackPos child) = branchingdecision new))
   \<and> (nodestack t \<noteq> [] \<and> opensubtrees (last (nodestack t)) = 1 \<longrightarrow>
        (\<exists>r. backtrack_flip env t = Some r
           \<and> (let t' = (case r of Pruned u \<Rightarrow> u | Descend u \<Rightarrow> u);
                   new = nodestack t' ! (length (nodestack t) - 1)
               in opensubtrees new = 0 \<and> spec_flipped (roundDouble env) (last (nodestack t)) new)))"
proof (intro conjI impI)
  assume a: "nodestack s = frames @ [f, c] \<and> opensubtrees c = 0 \<and> opensubtrees f = 1
     \<and> backtrackedBranching (fst (backtrackDomain (backtrack_popFrame s))) f"
  define r where "r = backtrack_repropagate env (snd (backtrackDomain (backtrack_popFrame s)))"
  have ns: "nodestack s = frames @ [f, c]" and oc: "opensubtrees c = 0"
    and "of": "opensubtrees f = 1"
    and bb: "backtrackedBranching (fst (backtrackDomain (backtrack_popFrame s))) f"
    using a by simp_all
  have ne: "nodestack s \<noteq> []" and cl: "opensubtrees (last (nodestack s)) = 0"
    using ns oc by simp_all
  have nr: "nodestack r = frames @ [f]"
    by (simp add: r_def ns butlast_append)
  have pop: "backtrack_pop env s
      = Some (Popped (if infeasible (localdom r)
                      then setCurrnode (\<lambda>n. n\<lparr>opensubtrees := 0\<rparr>) (logCall ClearChangedCols r)
                      else r))"
    using backtrack_pop_open [OF ns, of env] "of" bb by (simp add: Let_def r_def)
  have "if infeasible (localdom r)
          then (\<exists>t. backtrack_pop env s = Some (Popped t)
                  \<and> nodestack t = frames @ [f\<lparr>opensubtrees := 0\<rparr>]
                  \<and> backtrack env recoverBasis s = backtrack env recoverBasis t)
          else (\<exists>u f'. backtrack_pop env s = Some (Popped r) \<and> nodestack r = frames @ [f]
                  \<and> spec_flipped (roundDouble env) f f' \<and> opensubtrees f' = 0
                  \<and> ((backtrack_flip env r = Some (Pruned u) \<and> nodestack u = frames @ [f']
                       \<and> backtrack env recoverBasis s = backtrack env recoverBasis u)
                     \<or> (backtrack_flip env r = Some (Descend u)
                         \<and> butlast (nodestack u) = frames @ [f']
                         \<and> backtrack env recoverBasis s
                             = Some (True, if recoverBasis then recoverNodeBasis u else u))))"
  proof (cases "infeasible (localdom r)")
    case True
    let ?t = "setCurrnode (\<lambda>n. n\<lparr>opensubtrees := 0\<rparr>) (logCall ClearChangedCols r)"
    have p: "backtrack_pop env s = Some (Popped ?t)" using pop True by simp
    have nt: "nodestack ?t = frames @ [f\<lparr>opensubtrees := 0\<rparr>]"
      by (simp add: nr updateLast_def)
    have l: "backtrack_loop env s = backtrack_loop env ?t"
      by (simp add: backtrack_loop_closed [OF ne cl] p)
    have net: "nodestack ?t \<noteq> []" and clt: "opensubtrees (last (nodestack ?t)) = 0"
      by (simp_all only: nt) simp_all
    have "backtrack env recoverBasis s = backtrack env recoverBasis ?t"
      by (simp only: backtrack_closed [OF ne cl] backtrack_closed [OF net clt] l)
    with p nt True show ?thesis by auto
  next
    case False
    have p: "backtrack_pop env s = Some (Popped r)" using pop False by simp
    have l: "backtrack_loop env s = backtrack_loop env r"
      by (simp add: backtrack_loop_closed [OF ne cl] p)
    have ner: "nodestack r \<noteq> []" and opr: "opensubtrees (last (nodestack r)) \<noteq> 0"
      using nr "of" by simp_all
    let ?f = "flipBranchingDecision env f"
    have sf: "spec_flipped (roundDouble env) f ?f" by (rule spec_flipped_flipBranchingDecision)
    from backtrack_flip_frames [OF nr "of", of env]
    have "(\<exists>u. backtrack_flip env r = Some (Pruned u) \<and> nodestack u = frames @ [?f]
              \<and> backtrack env recoverBasis s = backtrack env recoverBasis u)
          \<or> (\<exists>u. backtrack_flip env r = Some (Descend u)
                \<and> butlast (nodestack u) = frames @ [?f]
                \<and> backtrack env recoverBasis s
                    = Some (True, if recoverBasis then recoverNodeBasis u else u))"
    proof (elim disjE exE conjE)
      fix u assume u: "backtrack_flip env r = Some (Pruned u)"
        and nu: "nodestack u = frames @ [?f]"
      have "backtrack_loop env s = backtrack_loop env u"
        by (simp add: l backtrack_loop_open [OF ner opr] u)
      moreover have neu: "nodestack u \<noteq> []" and clu: "opensubtrees (last (nodestack u)) = 0"
        by (simp_all add: nu)
      ultimately have "backtrack env recoverBasis s = backtrack env recoverBasis u"
        by (simp only: backtrack_closed [OF ne cl] backtrack_closed [OF neu clu])
      with u nu show ?thesis by blast
    next
      fix u assume u: "backtrack_flip env r = Some (Descend u)"
        and nu: "butlast (nodestack u) = frames @ [?f]"
      have "backtrack_loop env s = Some (True, u)"
        by (simp add: l backtrack_loop_open [OF ner opr] u)
      then have "backtrack env recoverBasis s
                   = Some (True, if recoverBasis then recoverNodeBasis u else u)"
        by (simp add: backtrack_closed [OF ne cl])
      with u nu show ?thesis by blast
    qed
    then show ?thesis
      using False p nr sf by (simp only: if_False) (use opensubtrees_flip in blast)
  qed
  then show "let r = backtrack_repropagate env (snd (backtrackDomain (backtrack_popFrame s)))
       in if infeasible (localdom r)
          then (\<exists>t. backtrack_pop env s = Some (Popped t)
                  \<and> nodestack t = frames @ [f\<lparr>opensubtrees := 0\<rparr>]
                  \<and> backtrack env recoverBasis s = backtrack env recoverBasis t)
          else (\<exists>u f'. backtrack_pop env s = Some (Popped r) \<and> nodestack r = frames @ [f]
                  \<and> spec_flipped (roundDouble env) f f' \<and> opensubtrees f' = 0
                  \<and> ((backtrack_flip env r = Some (Pruned u) \<and> nodestack u = frames @ [f']
                       \<and> backtrack env recoverBasis s = backtrack env recoverBasis u)
                     \<or> (backtrack_flip env r = Some (Descend u)
                         \<and> butlast (nodestack u) = frames @ [f']
                         \<and> backtrack env recoverBasis s
                             = Some (True, if recoverBasis then recoverNodeBasis u else u))))"
    unfolding Let_def r_def .
next
  assume "roundDouble env (boundval (branchingdecision f) - 1 / 2)
          = boundval (branchingdecision f) - 1 / 2
        \<and> roundDouble env (boundval (branchingdecision f) + 1 / 2)
            = boundval (branchingdecision f) + 1 / 2"
  then show "spec_flipped (\<lambda>x. x) f (flipBranchingDecision env f)"
    by (cases "boundtype (branchingdecision f)")
       (simp_all add: spec_flipped_def flipBranchingDecision_def Let_def)
next
  assume "backtrack env recoverBasis s = Some (True, s')"
  from backtrack_flipped_frame [OF this] obtain k child where
    kk: "k < length (nodestack s)
       \<and> opensubtrees (nodestack s ! k) = 1
       \<and> nodestack s' = take k (nodestack s) @ [flipBranchingDecision env (nodestack s ! k), child]
       \<and> 0 \<le> domgchgStackPos child
       \<and> take (nat (domgchgStackPos child) + 1) (domchgstack (localdom s'))
          = take (nat (domgchgStackPos child)) (domchgstack (localdom s'))
              @ [branchingdecision (flipBranchingDecision env (nodestack s ! k))]
       \<and> nat (domgchgStackPos child) < length (domchgstack (localdom s'))"
    by (elim exE) blast
  then have
    k: "k < length (nodestack s)" "opensubtrees (nodestack s ! k) = 1"
       "nodestack s' = take k (nodestack s) @ [flipBranchingDecision env (nodestack s ! k), child]"
       "0 \<le> domgchgStackPos child"
       "take (nat (domgchgStackPos child) + 1) (domchgstack (localdom s'))
          = take (nat (domgchgStackPos child)) (domchgstack (localdom s'))
              @ [branchingdecision (flipBranchingDecision env (nodestack s ! k))]"
       "nat (domgchgStackPos child) < length (domchgstack (localdom s'))"
    by simp_all
  have len: "length (nodestack s') - 2 = k" using k(1,3) by simp
  have nth: "domchgstack (localdom s') ! nat (domgchgStackPos child)
               = branchingdecision (flipBranchingDecision env (nodestack s ! k))"
  proof -
    have "domchgstack (localdom s') ! nat (domgchgStackPos child)
            = take (nat (domgchgStackPos child) + 1) (domchgstack (localdom s'))
                ! nat (domgchgStackPos child)"
      by simp
    also have "\<dots> = branchingdecision (flipBranchingDecision env (nodestack s ! k))"
      unfolding k(5) using k(6) by (simp add: nth_append)
    finally show ?thesis .
  qed
  show "let k = length (nodestack s') - 2;
            old = nodestack s ! k;
            new = nodestack s' ! k;
            child = last (nodestack s')
        in k < length (nodestack s) \<and> length (nodestack s') = k + 2
           \<and> take k (nodestack s') = take k (nodestack s)
           \<and> opensubtrees old = 1 \<and> opensubtrees new = 0
           \<and> spec_flipped (roundDouble env) old new
           \<and> 0 \<le> domgchgStackPos child
           \<and> nat (domgchgStackPos child) < length (domchgstack (localdom s'))
           \<and> domchgstack (localdom s') ! nat (domgchgStackPos child) = branchingdecision new"
    unfolding Let_def len
    using k(1,2,4,6) nth
    by (simp add: k(3) nth_append spec_flipped_flipBranchingDecision)
next
  assume a: "nodestack t \<noteq> [] \<and> opensubtrees (last (nodestack t)) = 1"
  then have some: "backtrack_flip env t \<noteq> None"
    by (simp add: backtrack_flip_def Let_def)
  then obtain r where r: "backtrack_flip env t = Some r" by blast
  have ne: "nodestack t \<noteq> []" using a by simp
  have len: "length (butlast (nodestack t)) = length (nodestack t) - 1" by simp
  have "nodestack (case r of Pruned u \<Rightarrow> u | Descend u \<Rightarrow> u) ! (length (nodestack t) - 1)
          = flipBranchingDecision env (last (nodestack t))"
  proof (cases r)
    case (Pruned u)
    have "nodestack u = butlast (nodestack t) @ [flipBranchingDecision env (last (nodestack t))]"
      using backtrack_flip_Pruned [OF r [unfolded Pruned] ne] .
    then have "nodestack u ! (length (nodestack t) - 1) = flipBranchingDecision env (last (nodestack t))"
      using len by (simp only: nth_append_length [of "butlast (nodestack t)", unfolded len])
    then show ?thesis by (simp add: Pruned)
  next
    case (Descend u)
    from backtrack_flip_Descend [OF r [unfolded Descend] ne] obtain child where
      "nodestack u = butlast (nodestack t) @ [flipBranchingDecision env (last (nodestack t)), child]"
      by blast
    then have "nodestack u = butlast (nodestack t)
                 @ flipBranchingDecision env (last (nodestack t)) # [child]"
      by simp
    then have "nodestack u ! (length (nodestack t) - 1) = flipBranchingDecision env (last (nodestack t))"
      by (simp only: nth_append_length [of "butlast (nodestack t)", unfolded len])
    then show ?thesis by (simp add: Descend)
  qed
  with r show "\<exists>r. backtrack_flip env t = Some r
           \<and> (let t' = (case r of Pruned u \<Rightarrow> u | Descend u \<Rightarrow> u);
                   new = nodestack t' ! (length (nodestack t) - 1)
               in opensubtrees new = 0 \<and> spec_flipped (roundDouble env) (last (nodestack t)) new)"
    by (simp add: Let_def spec_flipped_flipBranchingDecision)
qed

lemma unwinding_popped:
  "fst (backtrackDomain (backtrack_popFrame unwinding))
     = \<lparr>boundval = 3, column = 2, boundtype = kUpper\<rparr>"
  "localdom (snd (backtrackDomain (backtrack_popFrame unwinding)))
     = \<lparr>domchgstack = [], branchPos = [], infeasible = False\<rparr>"
  "nodestack (snd (backtrackDomain (backtrack_popFrame unwinding))) = [nodestack unwinding ! 0]"
  by (simp_all add: backtrackDomain_def domain_backtrack_def
      backtrack_popFrame_def Let_def unwinding_nodestack unwinding_localdom)

lemma unwinding_repropagated:
  "localdom (backtrack_repropagate quiet (snd (backtrackDomain (backtrack_popFrame unwinding))))
     = \<lparr>domchgstack = [], branchPos = [], infeasible = False\<rparr>"
  "localdom (backtrack_repropagate conflicting
       (snd (backtrackDomain (backtrack_popFrame unwinding))))
     = \<lparr>domchgstack = [], branchPos = [], infeasible = True\<rparr>"
  by (simp_all add: backtrack_repropagate_def propagate_def pushImplied_def Let_def
      unwinding_popped unwinding_nodestack quiet_simps conflicting_simps)

lemma unwinding_hypotheses:
  "nodestack unwinding = [] @ [nodestack unwinding ! 0, nodestack unwinding ! 1]
   \<and> opensubtrees (nodestack unwinding ! 1) = 0 \<and> opensubtrees (nodestack unwinding ! 0) = 1
   \<and> backtrackedBranching (fst (backtrackDomain (backtrack_popFrame unwinding)))
        (nodestack unwinding ! 0)"
  by (simp add: unwinding_popped backtrackedBranching_def unwinding_nodestack)

text \<open>
  The claim as the spec words it fails twice. The root frame of \<open>unwinding\<close> is
  reached with one open subtree and the upper bound \<open>3\<close> on column \<open>2\<close> for its
  decision, the propagation finds its domain infeasible, and \<^verbatim>\<open>backtrack\<close> closes
  the frame with the decision as it was and returns false, the node stack empty.
  And the frame \<open>huge\<close> is flipped to the upper bound \<open>2^53\<close>, where
  \<open>\<lfloor>2^53 - 0.5\<rfloor>\<close> is \<open>2^53 - 1\<close>.
\<close>

theorem backtrack_closes_unflipped_counterexample:
  "opensubtrees (nodestack unwinding ! 0) = 1
   \<and> branchingdecision (nodestack unwinding ! 0)
       = \<lparr>boundval = 3, column = 2, boundtype = kUpper\<rparr>
   \<and> opensubtrees (last (nodestack unwinding)) = 0
   \<and> map_option
        (\<lambda>r. case r of
                Popped t \<Rightarrow> map (\<lambda>n. (opensubtrees n, branchingdecision n)) (nodestack t)
              | Emptied t \<Rightarrow> [])
        (backtrack_pop conflicting unwinding)
       = Some [(0, \<lparr>boundval = 3, column = 2, boundtype = kUpper\<rparr>)]
   \<and> map_option fst (backtrack conflicting True unwinding) = Some False
   \<and> branchingdecision (flipBranchingDecision halfway huge)
       = \<lparr>boundval = 2 ^ 53, column = 2, boundtype = kUpper\<rparr>
   \<and> \<not> spec_flipped (\<lambda>x. x) huge (flipBranchingDecision halfway huge)"
proof -
  have pop: "backtrack_pop conflicting unwinding
      = Some (Popped (setCurrnode (\<lambda>n. n\<lparr>opensubtrees := 0\<rparr>)
          (logCall ClearChangedCols
             (backtrack_repropagate conflicting
                (snd (backtrackDomain (backtrack_popFrame unwinding)))))))"
    using backtrack_pop_open [of unwinding "[]" "nodestack unwinding ! 0"
        "nodestack unwinding ! 1" conflicting] unwinding_hypotheses
    by (simp add: Let_def unwinding_repropagated)
  let ?t = "setCurrnode (\<lambda>n. n\<lparr>opensubtrees := 0\<rparr>)
          (logCall ClearChangedCols
             (backtrack_repropagate conflicting
                (snd (backtrackDomain (backtrack_popFrame unwinding)))))"
  have nt: "nodestack ?t = [(nodestack unwinding ! 0)\<lparr>opensubtrees := 0\<rparr>]"
    by (simp add: unwinding_nodestack updateLast_def)
  have pop2: "backtrack_pop conflicting ?t
      = Some (Emptied (logCall FlushDomain (backtrackToGlobal (backtrack_popFrame ?t))))"
    by (simp add: backtrack_pop_def Let_def unwinding_nodestack)
  have l2: "backtrack_loop conflicting ?t
      = Some (False, logCall FlushDomain (backtrackToGlobal (backtrack_popFrame ?t)))"
    by (subst backtrack_loop.simps) (simp add: pop2, simp add: unwinding_nodestack updateLast_def)
  have l1: "backtrack_loop conflicting unwinding
      = Some (False, logCall FlushDomain (backtrackToGlobal (backtrack_popFrame ?t)))"
    by (subst backtrack_loop.simps) (simp add: unwinding_nodestack pop l2)
  have b: "map_option fst (backtrack conflicting True unwinding) = Some False"
    by (simp add: backtrack_def unwinding_nodestack l1)
  have h: "branchingdecision (flipBranchingDecision halfway huge)
       = \<lparr>boundval = 2 ^ 53, column = 2, boundtype = kUpper\<rparr>"
    by (simp add: flipBranchingDecision_def huge_def halfway_def newNodeData_def Let_def)
  have n: "\<not> spec_flipped (\<lambda>x. x) huge (flipBranchingDecision halfway huge)"
  proof -
    have "\<lfloor>(2::real) ^ 53 - 1 / 2\<rfloor> = 2 ^ 53 - 1"
      by (simp add: floor_eq_iff)
    then show ?thesis
      unfolding spec_flipped_def h
      by (simp add: huge_def newNodeData_def)
  qed
  show ?thesis
    using b h n
    by (simp add: pop nt) (simp add: unwinding_nodestack updateLast_def)
qed

theorem backtrack_flips_decision_witness:
  "map_option
     (\<lambda>(found, u). (found, map (\<lambda>n. (opensubtrees n, branching_point n, branchingdecision n))
                             (butlast (nodestack u))))
     (backtrack quiet True unwinding)
     = Some (True, [(0, 7 / 2, \<lparr>boundval = 4, column = 2, boundtype = kLower\<rparr>)])
   \<and> map_option
        (\<lambda>r. case r of
                Popped t \<Rightarrow> map (\<lambda>n. (opensubtrees n, branchingdecision n)) (nodestack t)
              | Emptied t \<Rightarrow> [])
        (backtrack_pop conflicting unwinding)
       = Some [(0, \<lparr>boundval = 3, column = 2, boundtype = kUpper\<rparr>)]"
proof -
  let ?f = "nodestack unwinding ! 0"
  let ?r = "backtrack_repropagate quiet (snd (backtrackDomain (backtrack_popFrame unwinding)))"
  have np: "backtrack_flip quiet ?r \<noteq> Some (Pruned u)" for u
    by (simp add: backtrack_flip_def applyFlipped_def flipBranchingDecision_def
        backtrack_repropagate_def propagate_def pushImplied_def changeBound_def pushChange_def
        orbitalFixing_def logCall_def orbitsValidInChildNode_def getCutoffBound_def
        backtrackDomain_def domain_backtrack_def backtrack_popFrame_def
        Let_def unwinding_nodestack unwinding_localdom unwinding_limits quiet_simps)
  have "\<exists>u f'. spec_flipped (roundDouble quiet) ?f f' \<and> opensubtrees f' = 0
          \<and> butlast (nodestack u) = [f']
          \<and> backtrack quiet True unwinding = Some (True, recoverNodeBasis u)"
    using backtrack_flips_decision [THEN conjunct1, rule_format, OF unwinding_hypotheses,
        of quiet True] np
    by (simp add: Let_def unwinding_repropagated) blast
  then obtain u f' where
    sf: "spec_flipped (roundDouble quiet) ?f f'" and o: "opensubtrees f' = 0"
    and bl: "butlast (nodestack u) = [f']"
    and bt: "backtrack quiet True unwinding = Some (True, recoverNodeBasis u)"
    by blast
  have d: "branchingdecision f' = \<lparr>boundval = 4, column = 2, boundtype = kLower\<rparr>"
    and bp: "branching_point f' = 7 / 2"
    using sf
    by (auto simp: spec_flipped_def unwinding_nodestack quiet_simps ceiling_eq_iff
        intro!: HighsDomainChange.equality)
  have 1: "map_option
     (\<lambda>(found, u). (found, map (\<lambda>n. (opensubtrees n, branching_point n, branchingdecision n))
                             (butlast (nodestack u))))
     (backtrack quiet True unwinding)
     = Some (True, [(0, 7 / 2, \<lparr>boundval = 4, column = 2, boundtype = kLower\<rparr>)])"
    by (simp add: bt bl o d bp)
  from backtrack_flips_decision [THEN conjunct1, rule_format, OF unwinding_hypotheses,
        of conflicting True]
  obtain t where "backtrack_pop conflicting unwinding = Some (Popped t)"
    and "nodestack t = [] @ [?f\<lparr>opensubtrees := 0\<rparr>]"
    by (auto simp: Let_def unwinding_repropagated)
  then have 2: "map_option
        (\<lambda>r. case r of
                Popped t \<Rightarrow> map (\<lambda>n. (opensubtrees n, branchingdecision n)) (nodestack t)
              | Emptied t \<Rightarrow> [])
        (backtrack_pop conflicting unwinding)
       = Some [(0, \<lparr>boundval = 3, column = 2, boundtype = kUpper\<rparr>)]"
    by (simp add: unwinding_nodestack)
  show ?thesis using 1 2 by simp
qed


subsection \<open>The strong-branching probe with an infeasible side\<close>

lemma domain_backtrack_pushed:
  "branchPos d = bp @ [length st] \<Longrightarrow> domchgstack d = st @ c # rest \<Longrightarrow>
     domain_backtrack d = (c, d\<lparr>domchgstack := st, branchPos := bp, infeasible := False\<rparr>)"
  by (simp add: domain_backtrack_def)

lemma trial_stack:
  "\<exists>rest. domchgstack (localdom (selectBranchingCandidate_trial env chg s))
            = domchgstack (localdom s) @ chg # rest"
  by (simp add: selectBranchingCandidate_trial_def Let_def domchgstack_propagate
      domchgstack_orbitalFixing split: option.splits)

lemma trial_branchPos:
  "branchPos (localdom (selectBranchingCandidate_trial env chg s))
     = branchPos (localdom s) @ [length (domchgstack (localdom s))]"
  by (simp add: selectBranchingCandidate_trial_def Let_def split: option.splits)

lemma trial_unchanged [simp]:
  "nodestack (selectBranchingCandidate_trial env chg s) = nodestack s"
  "pseudocost (selectBranchingCandidate_trial env chg s) = pseudocost s"
  "depthoffset (selectBranchingCandidate_trial env chg s) = depthoffset s"
  by (simp_all add: selectBranchingCandidate_trial_def Let_def changeBound_def propagate_def
      orbitalFixing_def logCall_def split: option.splits)

lemma backtrackDomain_trial:
  "localdom (snd (backtrackDomain (observe ob (logCall c
       (selectBranchingCandidate_trial env chg s)))))
     = (localdom s)\<lparr>infeasible := False\<rparr>"
proof -
  let ?t = "selectBranchingCandidate_trial env chg s"
  obtain rest where r: "domchgstack (localdom ?t) = domchgstack (localdom s) @ chg # rest"
    using trial_stack by blast
  have "domain_backtrack (localdom ?t)
          = (chg, (localdom ?t)\<lparr>domchgstack := domchgstack (localdom s),
                                 branchPos := branchPos (localdom s), infeasible := False\<rparr>)"
    by (rule domain_backtrack_pushed [OF trial_branchPos r])
  then show ?thesis
    by (simp add: backtrackDomain_def Let_def)
qed

lemma backtrackDomain_others [simp]:
  "nodestack (snd (backtrackDomain s)) = nodestack s"
  "pseudocost (snd (backtrackDomain s)) = pseudocost s"
  "depthoffset (snd (backtrackDomain s)) = depthoffset s"
  by (simp_all add: backtrackDomain_def Let_def)

lemma others_logCall [simp]:
  "pseudocost (logCall c s) = pseudocost s" "depthoffset (logCall c s) = depthoffset s"
  "treeweight (logCall c s) = treeweight s" "mipdata (logCall c s) = mipdata s"
  "upper_limit (logCall c s) = upper_limit s"
  by (simp_all add: logCall_def)

lemma others_observe [simp]:
  "depthoffset (observe ob s) = depthoffset s" "treeweight (observe ob s) = treeweight s"
  "mipdata (observe ob s) = mipdata s" "upper_limit (observe ob s) = upper_limit s"
  "observed (pseudocost (observe ob s)) = observed (pseudocost s) @ [ob]"
  by (simp_all add: observe_def)

lemma others_changeBound [simp]:
  "pseudocost (changeBound env chg s) = pseudocost s"
  "depthoffset (changeBound env chg s) = depthoffset s"
  "treeweight (changeBound env chg s) = treeweight s"
  "mipdata (changeBound env chg s) = mipdata s"
  "upper_limit (changeBound env chg s) = upper_limit s"
  by (simp_all add: changeBound_def)

lemma newNodeData_fields [simp]:
  "opensubtrees (newNodeData env lb est basis orbits) = 2"
  "lower_bound (newNodeData env lb est basis orbits) = lb"
  "estimate (newNodeData env lb est basis orbits) = est"
  "nodeBasis (newNodeData env lb est basis orbits) = basis"
  "skipDepthCount (newNodeData env lb est basis orbits) = 0"
  "domgchgStackPos (newNodeData env lb est basis orbits) = - 1"
  by (simp_all add: newNodeData_def)

lemma updateParent_two: "updateParent f (xs @ [a, b]) = xs @ [f a, b]"
  by (simp add: updateParent_def updateLast_def butlast_append)

lemma selectBranchingCandidate_down_commits:
  assumes "nodestack s \<noteq> []" and "opensubtrees (last (nodestack s)) = 2"
    and "\<not> isContinuous env col"
    and "infeasible (localdom (selectBranchingCandidate_trial env
           \<lparr>boundval = of_int \<lfloor>fracval\<rfloor>, column = col, boundtype = kUpper\<rparr> s))"
  shows "\<exists>s'. selectBranchingCandidate_down env col fracval s = Some (Returned (- 1) s')
           \<and> spec_committed s s' fracval
                \<lparr>boundval = of_int \<lceil>fracval\<rceil>, column = col, boundtype = kLower\<rparr> False"
  using assms
  by (simp add: selectBranchingCandidate_down_def Let_def branchUpwards_def
      backtrackDomain_trial spec_committed_def updateParent_two butlast_append)

lemma selectBranchingCandidate_up_commits:
  assumes "nodestack s \<noteq> []" and "opensubtrees (last (nodestack s)) = 2"
    and "\<not> isContinuous env col"
    and "infeasible (localdom (selectBranchingCandidate_trial env
           \<lparr>boundval = of_int \<lceil>fracval\<rceil>, column = col, boundtype = kLower\<rparr> s))"
  shows "\<exists>s'. selectBranchingCandidate_up env col fracval s = Some (Returned (- 1) s')
           \<and> spec_committed s s' fracval
                \<lparr>boundval = of_int \<lfloor>fracval\<rfloor>, column = col, boundtype = kUpper\<rparr> True"
  using assms
  by (simp add: selectBranchingCandidate_up_def Let_def branchDownwards_def
      backtrackDomain_trial spec_committed_def updateParent_two butlast_append)

text \<open>
  Claim C4. During the reliability probing loop of \<^verbatim>\<open>selectBranchingCandidate\<close>,
  if the trial bound change on the candidate's unreliable side makes the local
  propagation infeasible, then the driver records a cutoff observation for that
  column and direction, backtracks the trial change, commits the opposite branch as
  a new child frame, sets the branching frame's \<open>skip_depth_count\<close> to 1 and closes
  it (\<open>open_subtrees = 0\<close>), decrements the depth offset, and returns \<open>-1\<close>. The
  frame probed is the last one, with both subtrees open, and the column is not
  continuous (the assertions of \<^verbatim>\<open>branchUpwards\<close> and \<^verbatim>\<open>branchDownwards\<close>).
\<close>

theorem probe_infeasible_side_commits_opposite:
  assumes "nodestack s \<noteq> []" and "opensubtrees (last (nodestack s)) = 2"
    and "\<not> isContinuous env col"
  shows
    "(infeasible (localdom (selectBranchingCandidate_trial env
         \<lparr>boundval = of_int \<lfloor>fracval\<rfloor>, column = col, boundtype = kUpper\<rparr> s)) \<longrightarrow>
        (\<exists>s'. selectBranchingCandidate_down env col fracval s = Some (Returned (- 1) s')
           \<and> spec_committed s s' fracval
                \<lparr>boundval = of_int \<lceil>fracval\<rceil>, column = col, boundtype = kLower\<rparr> False))
     \<and> (infeasible (localdom (selectBranchingCandidate_trial env
           \<lparr>boundval = of_int \<lceil>fracval\<rceil>, column = col, boundtype = kLower\<rparr> s)) \<longrightarrow>
        (\<exists>s'. selectBranchingCandidate_up env col fracval s = Some (Returned (- 1) s')
           \<and> spec_committed s s' fracval
                \<lparr>boundval = of_int \<lfloor>fracval\<rfloor>, column = col, boundtype = kUpper\<rparr> True))"
proof (intro conjI impI)
  assume "infeasible (localdom (selectBranchingCandidate_trial env
            \<lparr>boundval = of_int \<lfloor>fracval\<rfloor>, column = col, boundtype = kUpper\<rparr> s))"
  then show "\<exists>s'. selectBranchingCandidate_down env col fracval s = Some (Returned (- 1) s')
           \<and> spec_committed s s' fracval
                \<lparr>boundval = of_int \<lceil>fracval\<rceil>, column = col, boundtype = kLower\<rparr> False"
    by (rule selectBranchingCandidate_down_commits [OF assms])
next
  assume "infeasible (localdom (selectBranchingCandidate_trial env
            \<lparr>boundval = of_int \<lceil>fracval\<rceil>, column = col, boundtype = kLower\<rparr> s))"
  then show "\<exists>s'. selectBranchingCandidate_up env col fracval s = Some (Returned (- 1) s')
           \<and> spec_committed s s' fracval
                \<lparr>boundval = of_int \<lfloor>fracval\<rfloor>, column = col, boundtype = kUpper\<rparr> True"
    by (rule selectBranchingCandidate_up_commits [OF assms])
qed

theorem probe_infeasible_side_commits_opposite_witness:
  "\<exists>s'. selectBranchingCandidate_down (quiet\<lparr>propagation := (\<lambda>s. ([], True))\<rparr>) 2 (7 / 2) rooted
          = Some (Returned (- 1) s')
        \<and> observed (pseudocost s') = [AddCutoffObservation 2 False]
        \<and> domchgstack (localdom s') = [\<lparr>boundval = 4, column = 2, boundtype = kLower\<rparr>]
        \<and> length (nodestack s') = 2
        \<and> opensubtrees (last (butlast (nodestack s'))) = 0
        \<and> skipDepthCount (last (butlast (nodestack s'))) = 1
        \<and> depthoffset s' = - 1"
proof -
  let ?env = "quiet\<lparr>propagation := (\<lambda>s. ([], True))\<rparr>"
  have 1: "nodestack rooted \<noteq> []" and 2: "opensubtrees (last (nodestack rooted)) = 2"
    by (simp_all add: rooted_nodestack)
  have 3: "\<not> isContinuous ?env 2"
    by (simp add: quiet_def)
  have 4: "infeasible (localdom (selectBranchingCandidate_trial ?env
             \<lparr>boundval = of_int \<lfloor>7 / 2 :: real\<rfloor>, column = 2, boundtype = kUpper\<rparr> rooted))"
    by (simp add: selectBranchingCandidate_trial_def Let_def propagate_def changeBound_def
        pushChange_def rooted_nodestack rooted_localdom quiet_def logCall_def)
  have c: "\<lceil>7 / 2 :: real\<rceil> = 4"
    by (simp add: ceiling_eq_iff)
  have obs: "observed (pseudocost rooted) = []" "depthoffset rooted = 0"
    by (simp_all add: rooted_def setCurrnode_def createNewNode_def fresh_def newHighsSearch_def)
  have "\<exists>s'. selectBranchingCandidate_down ?env 2 (7 / 2) rooted = Some (Returned (- 1) s')
          \<and> spec_committed rooted s' (7 / 2)
               \<lparr>boundval = of_int \<lceil>7 / 2 :: real\<rceil>, column = 2, boundtype = kLower\<rparr> False"
    using probe_infeasible_side_commits_opposite [OF 1 2 3, of "7 / 2"] 4 by simp
  then obtain s' where s': "selectBranchingCandidate_down ?env 2 (7 / 2) rooted = Some (Returned (- 1) s')"
    and sc: "spec_committed rooted s' (7 / 2)
               \<lparr>boundval = of_int \<lceil>7 / 2 :: real\<rceil>, column = 2, boundtype = kLower\<rparr> False"
    by (elim exE conjE)
  from sc have "observed (pseudocost s') = [AddCutoffObservation 2 False]
        \<and> domchgstack (localdom s') = [\<lparr>boundval = 4, column = 2, boundtype = kLower\<rparr>]
        \<and> length (nodestack s') = 2
        \<and> opensubtrees (last (butlast (nodestack s'))) = 0
        \<and> skipDepthCount (last (butlast (nodestack s'))) = 1
        \<and> depthoffset s' = - 1"
    by (simp add: spec_committed_def c obs rooted_nodestack rooted_localdom)
  with s' show ?thesis by blast
qed

subsection \<open>The row bounds built by callhighs\<close>

lemma length_assign_range: "length (assign_range b n) = n"
  by (simp add: assign_range_def)

lemma overrun_mem: "i \<in> set (overrun b n) \<longleftrightarrow> i < n \<and> extent b \<le> i"
  by (auto simp: overrun_def)

text \<open>
  Claim C10. For every call of \<^verbatim>\<open>callhighs\<close> that builds an LP, the row lower bounds
  are the first \<open>numrow\<close> entries of the \<open>rowlower\<close> buffer, but the row upper bounds
  are the first \<open>numcol\<close> entries of the \<open>rowupper\<close> buffer. So whenever
  \<open>numrow \<noteq> numcol\<close> the vector \<^verbatim>\<open>rowUpper_\<close> has \<open>numcol\<close> elements, which
  disagrees with \<^verbatim>\<open>numRow_\<close> and with the length of \<^verbatim>\<open>rowLower_\<close>; and when
  \<open>numcol > numrow\<close> and the caller's \<open>rowupper\<close> buffer holds \<open>numrow\<close>
  elements, every offset from \<open>numrow\<close> to \<open>numcol - 1\<close> is read past its end.
\<close>

theorem callhighs_row_upper_uses_numcol:
  assumes "0 \<le> numcol" and "0 \<le> numrow" and "0 \<le> cells astart (nat numcol)"
  shows "\<exists>r. callhighs numcol numrow colcost collower colupper rowlower rowupper
               astart aindex avalue = Some r
           \<and> numRow (built r) = numrow
           \<and> rowLower (built r) = map (cells rowlower) [0..<nat numrow]
           \<and> rowUpper (built r) = map (cells rowupper) [0..<nat numcol]
           \<and> int (length (rowLower (built r))) = numrow
           \<and> int (length (rowUpper (built r))) = numcol
           \<and> (numrow \<noteq> numcol \<longrightarrow>
                int (length (rowUpper (built r))) \<noteq> numRow (built r)
                \<and> length (rowUpper (built r)) \<noteq> length (rowLower (built r)))
           \<and> (numrow < numcol \<and> extent rowupper = nat numrow \<longrightarrow>
                (\<forall>i. nat numrow \<le> i \<and> i < nat numcol
                      \<longrightarrow> (RowUpper, i) \<in> set (overruns r))
                \<and> (RowUpper, nat numrow) \<in> set (overruns r))"
proof -
  let ?r = "the (callhighs numcol numrow colcost collower colupper rowlower rowupper
                  astart aindex avalue)"
  have some: "callhighs numcol numrow colcost collower colupper rowlower rowupper
                astart aindex avalue = Some ?r"
    using assms by (simp add: callhighs_def Let_def)
  have low: "rowLower (built ?r) = map (cells rowlower) [0..<nat numrow]"
    and upp: "rowUpper (built ?r) = map (cells rowupper) [0..<nat numcol]"
    and nr: "numRow (built ?r) = numrow"
    using assms by (simp_all add: callhighs_def Let_def assign_range_def)
  have ov: "(RowUpper, i) \<in> set (overruns ?r)"
    if "extent rowupper \<le> i" and "i < nat numcol" for i
    using assms that by (simp add: callhighs_def Let_def overrun_mem image_iff)
  have lens: "int (length (rowLower (built ?r))) = numrow"
    "int (length (rowUpper (built ?r))) = numcol"
    using assms by (simp_all add: low upp)
  have neq: "length (rowUpper (built ?r)) \<noteq> length (rowLower (built ?r))"
    if "numrow \<noteq> numcol"
    using assms that by (simp add: low upp)
  show ?thesis
    using some low upp nr lens neq ov
    by (intro exI [of _ ?r]) auto
qed

theorem callhighs_row_upper_uses_numcol_witness:
  "(0::int) \<le> 2 \<and> (0::int) \<le> 1
   \<and> (\<exists>r. callhighs 2 1
          \<lparr>extent = 2, cells = (\<lambda>i. 1)\<rparr> \<lparr>extent = 2, cells = (\<lambda>i. 0)\<rparr>
          \<lparr>extent = 2, cells = (\<lambda>i. 4)\<rparr> \<lparr>extent = 1, cells = (\<lambda>i. 0)\<rparr>
          \<lparr>extent = 1, cells = (\<lambda>i. if i = 0 then 5 else 77)\<rparr>
          \<lparr>extent = 3, cells = (\<lambda>i. if i = 0 then 0 else if i = 1 then 1 else 2)\<rparr>
          \<lparr>extent = 2, cells = (\<lambda>i. 0)\<rparr> \<lparr>extent = 2, cells = (\<lambda>i. 1)\<rparr> = Some r
        \<and> numRow (built r) = 1
        \<and> rowLower (built r) = [0]
        \<and> rowUpper (built r) = [5, 77]
        \<and> (RowUpper, 1) \<in> set (overruns r))"
proof -
  have up: "[0..<2] = [0, Suc 0]"
    by (simp add: upt_rec)
  obtain r where r: "callhighs 2 1
          \<lparr>extent = 2, cells = (\<lambda>i. 1)\<rparr> \<lparr>extent = 2, cells = (\<lambda>i. 0)\<rparr>
          \<lparr>extent = 2, cells = (\<lambda>i. 4)\<rparr> \<lparr>extent = 1, cells = (\<lambda>i. 0)\<rparr>
          \<lparr>extent = 1, cells = (\<lambda>i. if i = 0 then 5 else 77)\<rparr>
          \<lparr>extent = 3, cells = (\<lambda>i. if i = 0 then 0 else if i = 1 then 1 else 2)\<rparr>
          \<lparr>extent = 2, cells = (\<lambda>i. 0)\<rparr> \<lparr>extent = 2, cells = (\<lambda>i. 1)\<rparr> = Some r"
      and "numRow (built r) = 1"
      and "rowLower (built r) = map (\<lambda>i. 0) [0..<nat 1]"
      and "rowUpper (built r) = map (\<lambda>i. if i = 0 then 5 else 77) [0..<nat 2]"
      and "(RowUpper, nat 1) \<in> set (overruns r)"
    using callhighs_row_upper_uses_numcol [of 2 1
      "\<lparr>extent = 3, cells = (\<lambda>i. if i = 0 then 0 else if i = 1 then 1 else 2)\<rparr>"
      "\<lparr>extent = 2, cells = (\<lambda>i. 1)\<rparr>" "\<lparr>extent = 2, cells = (\<lambda>i. 0)\<rparr>"
      "\<lparr>extent = 2, cells = (\<lambda>i. 4)\<rparr>" "\<lparr>extent = 1, cells = (\<lambda>i. 0)\<rparr>"
      "\<lparr>extent = 1, cells = (\<lambda>i. if i = 0 then 5 else 77)\<rparr>"
      "\<lparr>extent = 2, cells = (\<lambda>i. 0)\<rparr>" "\<lparr>extent = 2, cells = (\<lambda>i. 1)\<rparr>"]
    by auto
  then show ?thesis
    by (simp add: up)
qed

end
